theory Spec2Isabelle
  imports Main
begin

text \<open>
  The authentication and authorization core of the server (token check, login and
  registration, ownership-scoped post mutations) and its storage bootstrap, as functions
  over an explicit state. The state holds the MySQL server (database, tables, rows), the
  initializer's connection, the record of the steps taken, and the step numbers at which
  the environment makes the network fail. The packages the program calls (jsonwebtoken,
  bcrypt) are parameters of the functions that call them.
\<close>

section \<open>Values exchanged over HTTP\<close>

text \<open>
  The handlers answer with \<^verbatim>\<open>res.status(n).json(v)\<close>; \<^verbatim>\<open>res.json(v)\<close> alone
  answers with status 200. The body is the JavaScript value handed to \<^verbatim>\<open>res.json\<close>,
  which may be \<^verbatim>\<open>undefined\<close>.
\<close>

datatype json = Undefined | Null | Num nat | Str string | Obj "(string \<times> json) list"

record response =
  status :: nat
  body :: json

definition respond :: "nat \<Rightarrow> json \<Rightarrow> response" where
  "respond n v = \<lparr>status = n, body = v\<rparr>"

definition error_body :: "string \<Rightarrow> json" where
  "error_body m = Obj [(''error'', Str m)]"

text \<open>What a token carries once verified: the claims given at login plus the two timestamps.\<close>

record claims =
  c_id :: nat
  c_email :: string

record payload = claims +
  iat :: nat
  exp :: nat

section \<open>Request Authenticator (src/middleware/auth.js)\<close>

text \<open>
  \<^verbatim>\<open>String.prototype.split(" ")\<close>: the pieces between single separators; the result
  always has at least one piece, and two adjacent separators give an empty piece.
\<close>

fun split :: "char \<Rightarrow> string \<Rightarrow> string list" where
  "split sep [] = [[]]"
| "split sep (c # cs) =
     (if c = sep then [] # split sep cs
      else (case split sep cs of
              [] \<Rightarrow> [[c]]
            | p # ps \<Rightarrow> (c # p) # ps))"

text \<open>Array indexing: out of range gives \<^verbatim>\<open>undefined\<close>, here \<open>None\<close>.\<close>

definition index :: "'a list \<Rightarrow> nat \<Rightarrow> 'a option" where
  "index xs i = (if i < length xs then Some (xs ! i) else None)"

text \<open>
  \<^verbatim>\<open>req.headers.authorization?.split(" ")[1]\<close>: the optional chain gives
  \<^verbatim>\<open>undefined\<close> for a missing header.
\<close>

definition extract_token :: "string option \<Rightarrow> string option" where
  "extract_token authorization =
     (case authorization of
        None \<Rightarrow> None
      | Some h \<Rightarrow> index (split CHR '' '' h) 1)"

text \<open>
  The middleware either answers the request itself or calls \<^verbatim>\<open>next()\<close> with
  \<^verbatim>\<open>req.user\<close> set. \<^verbatim>\<open>jwt.verify\<close> belongs to the jsonwebtoken package; it is
  the parameter \<open>verify\<close>, given the token, the process-wide secret and the current time,
  and it throws (\<open>Inl\<close>) or returns the decoded payload.
  \<^verbatim>\<open>!token\<close> holds for \<^verbatim>\<open>undefined\<close> and for the empty string.
\<close>

datatype 'u passage = Responded response | Next 'u

definition authMiddleware ::
  "(string \<Rightarrow> string \<Rightarrow> nat \<Rightarrow> 'e + 'u) \<Rightarrow> string \<Rightarrow> nat \<Rightarrow> string option \<Rightarrow> 'u passage" where
  "authMiddleware verify secret now authorization =
     (case extract_token authorization of
        None \<Rightarrow> Responded (respond 401 (error_body ''No token provided''))
      | Some token \<Rightarrow>
          if token = [] then Responded (respond 401 (error_body ''No token provided''))
          else (case verify token secret now of
                  Inl e \<Rightarrow> Responded (respond 401 (error_body ''Invalid token''))
                | Inr decoded \<Rightarrow> Next decoded))"

section \<open>The relational store\<close>

text \<open>
  The tables as \<^verbatim>\<open>createTables\<close> declares them (src/config/init.js). Identifiers are
  AUTO_INCREMENT integers, so a table carries its next identifier; \<open>created_at\<close> defaults
  to the server clock. Column values compare by equality.
\<close>

record user_row =
  u_id :: nat
  u_username :: string
  u_email :: string
  u_password :: string
  u_created_at :: nat

record post_row =
  p_id :: nat
  p_title :: string
  p_content :: string
  p_user_id :: nat
  p_created_at :: nat

record 'r table =
  rows :: "'r list"
  auto_increment :: nat

record database =
  users :: "user_row table option"
  posts :: "post_row table option"

text \<open>The server holds the one database named by \<^verbatim>\<open>DB_NAME\<close>, once it is created.\<close>

record mysql_server =
  db :: "database option"
  clock :: nat

datatype sql_error =
    ER_BAD_DB_ERROR | ER_NO_DB_ERROR | ER_NO_SUCH_TABLE | ER_DUP_ENTRY
  | ER_NO_REFERENCED_ROW | ER_FK_CANNOT_OPEN_PARENT

datatype error = Sql sql_error | ConnectionLost | ConnectionClosed | Thrown string

fun message :: "error \<Rightarrow> string" where
  "message (Sql ER_BAD_DB_ERROR) = ''ER_BAD_DB_ERROR''"
| "message (Sql ER_NO_DB_ERROR) = ''ER_NO_DB_ERROR''"
| "message (Sql ER_NO_SUCH_TABLE) = ''ER_NO_SUCH_TABLE''"
| "message (Sql ER_DUP_ENTRY) = ''ER_DUP_ENTRY''"
| "message (Sql ER_NO_REFERENCED_ROW) = ''ER_NO_REFERENCED_ROW''"
| "message (Sql ER_FK_CANNOT_OPEN_PARENT) = ''ER_FK_CANNOT_OPEN_PARENT''"
| "message ConnectionLost = ''PROTOCOL_CONNECTION_LOST''"
| "message ConnectionClosed = ''PROTOCOL_ENQUEUE_AFTER_QUIT''"
| "message (Thrown m) = m"

subsection \<open>The statements the program sends\<close>

definition empty_table :: "'r table" where
  "empty_table = \<lparr>rows = [], auto_increment = 1\<rparr>"

text \<open>\<^verbatim>\<open>CREATE DATABASE IF NOT EXISTS `DB_NAME`\<close>\<close>

definition create_database :: "mysql_server \<Rightarrow> sql_error + unit \<times> mysql_server" where
  "create_database s =
     (case db s of
        None \<Rightarrow> Inr ((), s\<lparr>db := Some \<lparr>users = None, posts = None\<rparr>\<rparr>)
      | Some d \<Rightarrow> Inr ((), s))"

text \<open>\<^verbatim>\<open>CREATE TABLE IF NOT EXISTS users (...)\<close>\<close>

definition create_users_table :: "database \<Rightarrow> sql_error + unit \<times> database" where
  "create_users_table d =
     (case users d of
        None \<Rightarrow> Inr ((), d\<lparr>users := Some empty_table\<rparr>)
      | Some t \<Rightarrow> Inr ((), d))"

text \<open>
  \<^verbatim>\<open>CREATE TABLE IF NOT EXISTS posts (... FOREIGN KEY (user_id) REFERENCES users(id)
  ON DELETE CASCADE)\<close>: creating it needs the referenced table.
\<close>

definition create_posts_table :: "database \<Rightarrow> sql_error + unit \<times> database" where
  "create_posts_table d =
     (case posts d of
        Some t \<Rightarrow> Inr ((), d)
      | None \<Rightarrow>
          (case users d of
             None \<Rightarrow> Inl ER_FK_CANNOT_OPEN_PARENT
           | Some u \<Rightarrow> Inr ((), d\<lparr>posts := Some empty_table\<rparr>)))"

text \<open>\<^verbatim>\<open>SELECT COUNT(*) as count FROM users\<close> and the same for posts.\<close>

definition count_users :: "database \<Rightarrow> sql_error + nat \<times> database" where
  "count_users d =
     (case users d of
        None \<Rightarrow> Inl ER_NO_SUCH_TABLE
      | Some t \<Rightarrow> Inr (length (rows t), d))"

definition count_posts :: "database \<Rightarrow> sql_error + nat \<times> database" where
  "count_posts d =
     (case posts d of
        None \<Rightarrow> Inl ER_NO_SUCH_TABLE
      | Some t \<Rightarrow> Inr (length (rows t), d))"

text \<open>
  \<^verbatim>\<open>INSERT INTO users (username, email, password) VALUES (?, ?, ?)\<close>: username and
  email are UNIQUE; the result is the \<^verbatim>\<open>insertId\<close>.
\<close>

definition insert_user ::
  "nat \<Rightarrow> string \<Rightarrow> string \<Rightarrow> string \<Rightarrow> database \<Rightarrow> sql_error + nat \<times> database" where
  "insert_user now username email password d =
     (case users d of
        None \<Rightarrow> Inl ER_NO_SUCH_TABLE
      | Some t \<Rightarrow>
          if \<exists>r \<in> set (rows t). u_username r = username \<or> u_email r = email
          then Inl ER_DUP_ENTRY
          else Inr (auto_increment t,
                 d\<lparr>users := Some
                     \<lparr>rows = rows t @
                        [\<lparr>u_id = auto_increment t, u_username = username, u_email = email,
                          u_password = password, u_created_at = now\<rparr>],
                      auto_increment = auto_increment t + 1\<rparr>\<rparr>))"

text \<open>
  \<^verbatim>\<open>INSERT INTO posts (title, content, user_id) VALUES (?, ?, ?)\<close>: \<open>user_id\<close> is
  a foreign key to \<open>users(id)\<close>.
\<close>

definition insert_post ::
  "nat \<Rightarrow> string \<Rightarrow> string \<Rightarrow> nat \<Rightarrow> database \<Rightarrow> sql_error + nat \<times> database" where
  "insert_post now title content user_id d =
     (case posts d of
        None \<Rightarrow> Inl ER_NO_SUCH_TABLE
      | Some t \<Rightarrow>
          (case users d of
             None \<Rightarrow> Inl ER_NO_SUCH_TABLE
           | Some u \<Rightarrow>
               if user_id \<notin> set (map u_id (rows u)) then Inl ER_NO_REFERENCED_ROW
               else Inr (auto_increment t,
                      d\<lparr>posts := Some
                          \<lparr>rows = rows t @
                             [\<lparr>p_id = auto_increment t, p_title = title, p_content = content,
                               p_user_id = user_id, p_created_at = now\<rparr>],
                           auto_increment = auto_increment t + 1\<rparr>\<rparr>)))"

text \<open>
  \<^verbatim>\<open>UPDATE posts SET title = ?, content = ? WHERE id = ? AND user_id = ?\<close>: the result
  is \<^verbatim>\<open>affectedRows\<close>, the number of rows the WHERE clause matched.
\<close>

definition update_post ::
  "string \<Rightarrow> string \<Rightarrow> nat \<Rightarrow> nat \<Rightarrow> database \<Rightarrow> sql_error + nat \<times> database" where
  "update_post title content pid uid d =
     (case posts d of
        None \<Rightarrow> Inl ER_NO_SUCH_TABLE
      | Some t \<Rightarrow>
          Inr (length (filter (\<lambda>r. p_id r = pid \<and> p_user_id r = uid) (rows t)),
            d\<lparr>posts := Some
                (t\<lparr>rows := map (\<lambda>r. if p_id r = pid \<and> p_user_id r = uid
                                     then r\<lparr>p_title := title, p_content := content\<rparr>
                                     else r) (rows t)\<rparr>)\<rparr>))"

text \<open>\<^verbatim>\<open>DELETE FROM posts WHERE id = ? AND user_id = ?\<close>\<close>

definition delete_post :: "nat \<Rightarrow> nat \<Rightarrow> database \<Rightarrow> sql_error + nat \<times> database" where
  "delete_post pid uid d =
     (case posts d of
        None \<Rightarrow> Inl ER_NO_SUCH_TABLE
      | Some t \<Rightarrow>
          Inr (length (filter (\<lambda>r. p_id r = pid \<and> p_user_id r = uid) (rows t)),
            d\<lparr>posts := Some
                (t\<lparr>rows := filter (\<lambda>r. \<not> (p_id r = pid \<and> p_user_id r = uid)) (rows t)\<rparr>)\<rparr>))"

text \<open>\<^verbatim>\<open>SELECT * FROM users WHERE email = ?\<close>\<close>

definition select_user_by_email ::
  "string \<Rightarrow> database \<Rightarrow> sql_error + user_row list \<times> database" where
  "select_user_by_email email d =
     (case users d of
        None \<Rightarrow> Inl ER_NO_SUCH_TABLE
      | Some t \<Rightarrow> Inr (filter (\<lambda>r. u_email r = email) (rows t), d))"

text \<open>\<^verbatim>\<open>SELECT id, username, email FROM users WHERE id = ?\<close>\<close>

definition select_profile ::
  "nat \<Rightarrow> database \<Rightarrow> sql_error + (nat \<times> string \<times> string) list \<times> database" where
  "select_profile uid d =
     (case users d of
        None \<Rightarrow> Inl ER_NO_SUCH_TABLE
      | Some t \<Rightarrow>
          Inr (map (\<lambda>r. (u_id r, u_username r, u_email r))
                 (filter (\<lambda>r. u_id r = uid) (rows t)), d))"

subsection \<open>The process, its connections and what can go wrong\<close>

text \<open>
  Every call that leaves the process (opening a connection, a query) and every password
  hashing is a step. The process records the steps it has taken with their outcome; the
  environment decides through \<open>faults\<close> at which step numbers the network fails. \<open>conn\<close>
  is the initializer's own connection; \<open>draws\<close> counts the salts bcrypt has drawn.
\<close>

datatype statement =
    CreateDatabase | UseDatabase | CreateUsersTable | CreatePostsTable
  | CountUsers | CountPosts | InsertUser | InsertPost
  | UpdatePost | DeletePost | SelectUserByEmail | SelectProfile

datatype step = Connect | Query statement | Hash

datatype conn_state = NotConnected | Open bool | Closed

record world =
  mysql :: mysql_server
  conn :: conn_state
  trace :: "(step \<times> error option) list"
  faults :: "nat list"
  draws :: nat

definition log_step :: "step \<Rightarrow> error option \<Rightarrow> world \<Rightarrow> world" where
  "log_step st outcome w = w\<lparr>trace := trace w @ [(st, outcome)]\<rparr>"

definition network ::
  "step \<Rightarrow> (world \<Rightarrow> error + 'a \<times> world) \<Rightarrow> world \<Rightarrow> (error + 'a) \<times> world" where
  "network st act w =
     (if length (trace w) \<in> set (faults w)
      then (Inl ConnectionLost, log_step st (Some ConnectionLost) w)
      else (case act w of
              Inl e \<Rightarrow> (Inl e, log_step st (Some e) w)
            | Inr (a, w') \<Rightarrow> (Inr a, log_step st None w')))"

definition in_database ::
  "(database \<Rightarrow> sql_error + 'a \<times> database) \<Rightarrow> world \<Rightarrow> error + 'a \<times> world" where
  "in_database sem w =
     (case db (mysql w) of
        None \<Rightarrow> Inl (Sql ER_BAD_DB_ERROR)
      | Some d \<Rightarrow>
          (case sem d of
             Inl e \<Rightarrow> Inl (Sql e)
           | Inr (a, d') \<Rightarrow> Inr (a, w\<lparr>mysql := (mysql w)\<lparr>db := Some d'\<rparr>\<rparr>)))"

text \<open>
  \<^verbatim>\<open>db.query\<close> of the routes: the pool of src/config/database.js, opened on the
  database \<^verbatim>\<open>DB_NAME\<close>.
\<close>

definition pool_query ::
  "statement \<Rightarrow> (database \<Rightarrow> sql_error + 'a \<times> database) \<Rightarrow> world \<Rightarrow> (error + 'a) \<times> world" where
  "pool_query stmt sem w = network (Query stmt) (in_database sem) w"

section \<open>Post routes (routes/posts.js)\<close>

text \<open>
  A request body carries its fields as strings, and \<^verbatim>\<open>req.params.id\<close> is given as the
  number MySQL compares with the INT column \<open>id\<close>.
\<close>

record post_body =
  b_title :: string
  b_content :: string

definition message_body :: "string \<Rightarrow> json" where
  "message_body m = Obj [(''message'', Str m)]"

text \<open>
  \<^verbatim>\<open>router.post("/", authMiddleware, ...)\<close>: the handler behind the middleware, then the
  route.
\<close>

definition create_post_handler :: "payload \<Rightarrow> post_body \<Rightarrow> world \<Rightarrow> response \<times> world" where
  "create_post_handler user b w =
     (case pool_query InsertPost
             (insert_post (clock (mysql w)) (b_title b) (b_content b) (c_id user)) w of
        (Inl e, w') \<Rightarrow> (respond 500 (error_body (message e)), w')
      | (Inr insertId, w') \<Rightarrow>
          (respond 201 (Obj [(''message'', Str ''Post created''), (''postId'', Num insertId)]),
           w'))"

definition create_post ::
  "(string \<Rightarrow> string \<Rightarrow> nat \<Rightarrow> 'e + payload) \<Rightarrow> string \<Rightarrow> nat \<Rightarrow> string option \<Rightarrow>
   post_body \<Rightarrow> world \<Rightarrow> response \<times> world" where
  "create_post verify secret now authorization b w =
     (case authMiddleware verify secret now authorization of
        Responded r \<Rightarrow> (r, w)
      | Next user \<Rightarrow> create_post_handler user b w)"

text \<open>\<^verbatim>\<open>router.put("/:id", authMiddleware, ...)\<close>\<close>

definition put_post_handler :: "payload \<Rightarrow> nat \<Rightarrow> post_body \<Rightarrow> world \<Rightarrow> response \<times> world" where
  "put_post_handler user pid b w =
     (case pool_query UpdatePost (update_post (b_title b) (b_content b) pid (c_id user)) w of
        (Inl e, w') \<Rightarrow> (respond 500 (error_body (message e)), w')
      | (Inr affectedRows, w') \<Rightarrow>
          if affectedRows = 0
          then (respond 404 (error_body ''Post not found or unauthorized''), w')
          else (respond 200 (message_body ''Post updated''), w'))"

definition put_post ::
  "(string \<Rightarrow> string \<Rightarrow> nat \<Rightarrow> 'e + payload) \<Rightarrow> string \<Rightarrow> nat \<Rightarrow> string option \<Rightarrow>
   nat \<Rightarrow> post_body \<Rightarrow> world \<Rightarrow> response \<times> world" where
  "put_post verify secret now authorization pid b w =
     (case authMiddleware verify secret now authorization of
        Responded r \<Rightarrow> (r, w)
      | Next user \<Rightarrow> put_post_handler user pid b w)"

text \<open>\<^verbatim>\<open>router.delete("/:id", authMiddleware, ...)\<close>\<close>

definition delete_post_handler :: "payload \<Rightarrow> nat \<Rightarrow> world \<Rightarrow> response \<times> world" where
  "delete_post_handler user pid w =
     (case pool_query DeletePost (delete_post pid (c_id user)) w of
        (Inl e, w') \<Rightarrow> (respond 500 (error_body (message e)), w')
      | (Inr affectedRows, w') \<Rightarrow>
          if affectedRows = 0
          then (respond 404 (error_body ''Post not found or unauthorized''), w')
          else (respond 200 (message_body ''Post deleted''), w'))"

definition delete_post_route ::
  "(string \<Rightarrow> string \<Rightarrow> nat \<Rightarrow> 'e + payload) \<Rightarrow> string \<Rightarrow> nat \<Rightarrow> string option \<Rightarrow>
   nat \<Rightarrow> world \<Rightarrow> response \<times> world" where
  "delete_post_route verify secret now authorization pid w =
     (case authMiddleware verify secret now authorization of
        Responded r \<Rightarrow> (r, w)
      | Next user \<Rightarrow> delete_post_handler user pid w)"

section \<open>User routes (routes/users.js)\<close>

record register_body =
  r_username :: string
  r_email :: string
  r_password :: string

record login_body =
  l_email :: string
  l_password :: string

text \<open>
  \<^verbatim>\<open>bcrypt.hash(data, rounds)\<close> belongs to the bcrypt package; it is the parameter
  \<open>hash\<close>. Each call draws a fresh salt, so \<open>hash\<close> is given the number of the draw;
  it throws (\<open>Inl\<close> with the message) or returns the hash string.
\<close>

definition bcrypt_hash ::
  "(nat \<Rightarrow> string \<Rightarrow> nat \<Rightarrow> string + string) \<Rightarrow> string \<Rightarrow> nat \<Rightarrow> world \<Rightarrow> (error + string) \<times> world" where
  "bcrypt_hash hash data rounds w =
     (case hash (draws w) data rounds of
        Inl m \<Rightarrow> (Inl (Thrown m), log_step Hash (Some (Thrown m)) (w\<lparr>draws := draws w + 1\<rparr>))
      | Inr h \<Rightarrow> (Inr h, log_step Hash None (w\<lparr>draws := draws w + 1\<rparr>)))"

text \<open>\<^verbatim>\<open>router.post("/register", ...)\<close>\<close>

definition register ::
  "(nat \<Rightarrow> string \<Rightarrow> nat \<Rightarrow> string + string) \<Rightarrow> register_body \<Rightarrow> world \<Rightarrow> response \<times> world" where
  "register hash b w =
     (case bcrypt_hash hash (r_password b) 10 w of
        (Inl e, w1) \<Rightarrow> (respond 500 (error_body (message e)), w1)
      | (Inr hashedPassword, w1) \<Rightarrow>
          (case pool_query InsertUser
                  (insert_user (clock (mysql w1)) (r_username b) (r_email b) hashedPassword) w1 of
             (Inl e, w2) \<Rightarrow> (respond 500 (error_body (message e)), w2)
           | (Inr insertId, w2) \<Rightarrow>
               (respond 201 (Obj [(''message'', Str ''User created''), (''userId'', Num insertId)]),
                w2)))"

text \<open>\<^verbatim>\<open>{ expiresIn: "24h" }\<close>, in seconds as the token's timestamps are.\<close>

definition expiresIn :: nat where
  "expiresIn = 24 * 60 * 60"

definition public_profile :: "nat \<Rightarrow> string \<Rightarrow> string \<Rightarrow> json" where
  "public_profile i u e = Obj [(''id'', Num i), (''username'', Str u), (''email'', Str e)]"

text \<open>
  \<^verbatim>\<open>router.post("/login", ...)\<close>. \<^verbatim>\<open>bcrypt.compare\<close> and \<^verbatim>\<open>jwt.sign\<close> are
  the parameters \<open>compare\<close> and \<open>sign\<close>; \<open>sign\<close> is given the claims, the secret, the
  lifetime and the time of issue.
\<close>

definition login ::
  "(claims \<Rightarrow> string \<Rightarrow> nat \<Rightarrow> nat \<Rightarrow> string + string) \<Rightarrow> (string \<Rightarrow> string \<Rightarrow> string + bool) \<Rightarrow>
   string \<Rightarrow> nat \<Rightarrow> login_body \<Rightarrow> world \<Rightarrow> response \<times> world" where
  "login sign compare secret now b w =
     (case pool_query SelectUserByEmail (select_user_by_email (l_email b)) w of
        (Inl e, w') \<Rightarrow> (respond 500 (error_body (message e)), w')
      | (Inr found, w') \<Rightarrow>
          (case found of
             [] \<Rightarrow> (respond 401 (error_body ''Invalid credentials''), w')
           | user # rest \<Rightarrow>
               (case compare (l_password b) (u_password user) of
                  Inl m \<Rightarrow> (respond 500 (error_body m), w')
                | Inr validPassword \<Rightarrow>
                    if \<not> validPassword
                    then (respond 401 (error_body ''Invalid credentials''), w')
                    else (case sign \<lparr>c_id = u_id user, c_email = u_email user\<rparr>
                                 secret expiresIn now of
                            Inl m \<Rightarrow> (respond 500 (error_body m), w')
                          | Inr token \<Rightarrow>
                              (respond 200
                                 (Obj [(''token'', Str token),
                                       (''user'', public_profile (u_id user) (u_username user)
                                                    (u_email user))]),
                               w')))))"

text \<open>
  \<^verbatim>\<open>router.get("/profile", authMiddleware, ...)\<close>: \<^verbatim>\<open>res.json(users[0])\<close>, and
  \<^verbatim>\<open>users[0]\<close> of an empty result is \<^verbatim>\<open>undefined\<close>.
\<close>

definition profile_handler :: "payload \<Rightarrow> world \<Rightarrow> response \<times> world" where
  "profile_handler user w =
     (case pool_query SelectProfile (select_profile (c_id user)) w of
        (Inl e, w') \<Rightarrow> (respond 500 (error_body (message e)), w')
      | (Inr found, w') \<Rightarrow>
          (respond 200
             (case index found 0 of
                None \<Rightarrow> Undefined
              | Some (i, u, e) \<Rightarrow> public_profile i u e),
           w'))"

definition profile ::
  "(string \<Rightarrow> string \<Rightarrow> nat \<Rightarrow> 'e + payload) \<Rightarrow> string \<Rightarrow> nat \<Rightarrow> string option \<Rightarrow>
   world \<Rightarrow> response \<times> world" where
  "profile verify secret now authorization w =
     (case authMiddleware verify secret now authorization of
        Responded r \<Rightarrow> (r, w)
      | Next user \<Rightarrow> profile_handler user w)"

section \<open>Bootstrap Initializer (src/config/init.js, src/config/mockData.js)\<close>

record mock_user =
  m_username :: string
  m_email :: string
  m_password :: string

record mock_post =
  m_title :: string
  m_content :: string
  m_user_id :: nat

definition mockUsers :: "mock_user list" where
  "mockUsers =
     [\<lparr>m_username = ''johndoe'', m_email = ''john@example.com'', m_password = ''password123''\<rparr>,
      \<lparr>m_username = ''janedoe'', m_email = ''jane@example.com'', m_password = ''password456''\<rparr>]"

definition mockPosts :: "mock_post list" where
  "mockPosts =
     [\<lparr>m_title = ''Getting Started with Node.js'',
       m_content = ''Node.js is a powerful JavaScript runtime built on Chrome's V8 engine. It allows developers to build scalable network applications.'',
       m_user_id = 1\<rparr>,
      \<lparr>m_title = ''Understanding Express Framework'',
       m_content = ''Express is a minimal and flexible Node.js web application framework that provides a robust set of features for web and mobile applications.'',
       m_user_id = 1\<rparr>,
      \<lparr>m_title = ''MySQL Best Practices'',
       m_content = ''When working with MySQL, it's important to follow best practices such as using prepared statements, indexing properly, and normalizing your data.'',
       m_user_id = 2\<rparr>,
      \<lparr>m_title = ''REST API Design Principles'',
       m_content = ''RESTful APIs should be stateless, cacheable, and follow standard HTTP methods. Proper resource naming and status codes are essential.'',
       m_user_id = 2\<rparr>,
      \<lparr>m_title = ''JWT Authentication Explained'',
       m_content = ''JSON Web Tokens provide a secure way to transmit information between parties. They consist of three parts: header, payload, and signature.'',
       m_user_id = 1\<rparr>]"

text \<open>
  \<^verbatim>\<open>mysql.createConnection({host, user, password})\<close>: a connection with no database
  selected.
\<close>

definition createConnection :: "world \<Rightarrow> (error + unit) \<times> world" where
  "createConnection w = network Connect (\<lambda>w. Inr ((), w\<lparr>conn := Open False\<rparr>)) w"

text \<open>\<^verbatim>\<open>connection.query\<close>: needs the connection open.\<close>

definition connection_query ::
  "statement \<Rightarrow> (world \<Rightarrow> error + 'a \<times> world) \<Rightarrow> world \<Rightarrow> (error + 'a) \<times> world" where
  "connection_query stmt act w =
     network (Query stmt)
       (\<lambda>w. case conn w of
               Open selected \<Rightarrow> act w
             | NotConnected \<Rightarrow> Inl ConnectionClosed
             | Closed \<Rightarrow> Inl ConnectionClosed) w"

text \<open>A statement on tables needs a database selected by \<^verbatim>\<open>USE\<close>.\<close>

definition table_query ::
  "statement \<Rightarrow> (database \<Rightarrow> sql_error + 'a \<times> database) \<Rightarrow> world \<Rightarrow> (error + 'a) \<times> world" where
  "table_query stmt sem w =
     connection_query stmt
       (\<lambda>w. if conn w = Open True then in_database sem w else Inl (Sql ER_NO_DB_ERROR)) w"

definition create_database_query :: "world \<Rightarrow> (error + unit) \<times> world" where
  "create_database_query w =
     connection_query CreateDatabase
       (\<lambda>w. case create_database (mysql w) of
               Inl e \<Rightarrow> Inl (Sql e)
             | Inr (u, s) \<Rightarrow> Inr (u, w\<lparr>mysql := s\<rparr>)) w"

text \<open>\<^verbatim>\<open>USE `DB_NAME`\<close>\<close>

definition use_database_query :: "world \<Rightarrow> (error + unit) \<times> world" where
  "use_database_query w =
     connection_query UseDatabase
       (\<lambda>w. case db (mysql w) of
               None \<Rightarrow> Inl (Sql ER_BAD_DB_ERROR)
             | Some d \<Rightarrow> Inr ((), w\<lparr>conn := Open True\<rparr>)) w"

text \<open>
  Sequencing with \<^verbatim>\<open>await\<close> inside \<^verbatim>\<open>try\<close>: a step that throws ends the block with
  its error.
\<close>

definition and_then ::
  "(world \<Rightarrow> (error + 'a) \<times> world) \<Rightarrow> ('a \<Rightarrow> world \<Rightarrow> (error + 'b) \<times> world) \<Rightarrow>
   world \<Rightarrow> (error + 'b) \<times> world" where
  "and_then m f w =
     (case m w of
        (Inl e, w') \<Rightarrow> (Inl e, w')
      | (Inr a, w') \<Rightarrow> f a w')"

definition succeed :: "'a \<Rightarrow> world \<Rightarrow> (error + 'a) \<times> world" where
  "succeed a w = (Inr a, w)"

text \<open>\<^verbatim>\<open>for (const user of mockUsers) { hash; INSERT }\<close>\<close>

fun seed_users ::
  "(nat \<Rightarrow> string \<Rightarrow> nat \<Rightarrow> string + string) \<Rightarrow> mock_user list \<Rightarrow> world \<Rightarrow> (error + unit) \<times> world" where
  "seed_users hash [] = succeed ()"
| "seed_users hash (user # rest) =
     and_then (bcrypt_hash hash (m_password user) 10) (\<lambda>hashedPassword.
     and_then (\<lambda>w. table_query InsertUser
                 (insert_user (clock (mysql w)) (m_username user) (m_email user) hashedPassword) w)
       (\<lambda>insertId. seed_users hash rest))"

text \<open>\<^verbatim>\<open>for (const post of mockPosts) { INSERT }\<close>\<close>

fun seed_posts :: "mock_post list \<Rightarrow> world \<Rightarrow> (error + unit) \<times> world" where
  "seed_posts [] = succeed ()"
| "seed_posts (post # rest) =
     and_then (\<lambda>w. table_query InsertPost
                 (insert_post (clock (mysql w)) (m_title post) (m_content post) (m_user_id post)) w)
       (\<lambda>insertId. seed_posts rest)"

text \<open>The \<^verbatim>\<open>try\<close> block of \<^verbatim>\<open>createTables\<close>.\<close>

definition createTables_try ::
  "(nat \<Rightarrow> string \<Rightarrow> nat \<Rightarrow> string + string) \<Rightarrow> world \<Rightarrow> (error + unit) \<times> world" where
  "createTables_try hash =
     and_then create_database_query (\<lambda>u.
     and_then use_database_query (\<lambda>u.
     and_then (table_query CreateUsersTable create_users_table) (\<lambda>u.
     and_then (table_query CreatePostsTable create_posts_table) (\<lambda>u.
     and_then (table_query CountUsers count_users) (\<lambda>count.
     and_then (if count = 0 then seed_users hash mockUsers else succeed ()) (\<lambda>u.
     and_then (table_query CountPosts count_posts) (\<lambda>count.
     if count = 0 then seed_posts mockPosts else succeed ())))))))"

text \<open>\<^verbatim>\<open>connection.end()\<close>\<close>

definition connection_end :: "world \<Rightarrow> world" where
  "connection_end w = w\<lparr>conn := Closed\<rparr>"

text \<open>
  \<^verbatim>\<open>createTables\<close>: the connection is made before the \<^verbatim>\<open>try\<close>; \<^verbatim>\<open>catch\<close> logs
  and rethrows; \<^verbatim>\<open>finally\<close> ends the connection.
\<close>

definition createTables ::
  "(nat \<Rightarrow> string \<Rightarrow> nat \<Rightarrow> string + string) \<Rightarrow> world \<Rightarrow> (error + unit) \<times> world" where
  "createTables hash w =
     (case createConnection w of
        (Inl e, w') \<Rightarrow> (Inl e, w')
      | (Inr u, w1) \<Rightarrow>
          (case createTables_try hash w1 of
             (r, w2) \<Rightarrow> (r, connection_end w2)))"

text \<open>
  The entry point (server.js): \<^verbatim>\<open>await createTables()\<close> at top level, then the routes
  and \<^verbatim>\<open>app.listen\<close>. A rejected promise there ends the process before it listens.
\<close>

datatype process_state = Crashed error | Listening

definition server_start ::
  "(nat \<Rightarrow> string \<Rightarrow> nat \<Rightarrow> string + string) \<Rightarrow> world \<Rightarrow> process_state \<times> world" where
  "server_start hash w =
     (case createTables hash w of
        (Inl e, w') \<Rightarrow> (Crashed e, w')
      | (Inr u, w') \<Rightarrow> (Listening, w'))"

section \<open>Token Service\<close>

text \<open>
  Modelled from the spec: the token as a structure. The jsonwebtoken package
  (\<^verbatim>\<open>jwt.sign\<close>, \<^verbatim>\<open>jwt.verify\<close>) is not under src/. Section 4.2 of the spec: a
  token is a signed structure containing the claims plus an absolute expiry timestamp; the
  signature is a symmetric MAC over claims and expiry keyed by the server-held secret.
\<close>

record 'tag token =
  t_payload :: payload
  t_signature :: 'tag

text \<open>
  Modelled from the spec: what the spec leaves to the package, the MAC itself and the
  string form in which a token travels.
\<close>

record 'tag scheme =
  mac :: "string \<Rightarrow> payload \<Rightarrow> 'tag"
  encode :: "'tag token \<Rightarrow> string"
  decode :: "string \<Rightarrow> 'tag token option"

text \<open>
  Modelled from the spec: signing a payload, the MAC over claims and expiry keyed by the
  secret (the missing part of \<^verbatim>\<open>jwt.sign\<close>).
\<close>

definition signed :: "'tag scheme \<Rightarrow> string \<Rightarrow> payload \<Rightarrow> 'tag token" where
  "signed sch secret p = \<lparr>t_payload = p, t_signature = mac sch secret p\<rparr>"

text \<open>
  Modelled from the spec: \<^verbatim>\<open>issue(claims, secret, ttl) -> token_string\<close>, the missing
  \<^verbatim>\<open>jwt.sign\<close>, called at the time \<open>now\<close>: the expiry is issue-time + ttl.
\<close>

definition token_issue :: "'tag scheme \<Rightarrow> claims \<Rightarrow> string \<Rightarrow> nat \<Rightarrow> nat \<Rightarrow> string + string" where
  "token_issue sch c secret ttl now =
     Inr (encode sch
            (signed sch secret \<lparr>c_id = c_id c, c_email = c_email c, iat = now, exp = now + ttl\<rparr>))"

text \<open>
  Modelled from the spec: the failures of verification, which are distinct internally:
  malformed or truncated token, signature that does not match, token past its expiry.
\<close>

datatype token_error = Malformed | SignatureMismatch | Expired

text \<open>
  Modelled from the spec: \<^verbatim>\<open>verify(token_string, secret) -> claims | Invalid\<close>, the
  missing \<^verbatim>\<open>jwt.verify\<close>, called at the time \<open>now\<close>: it must (a) reject malformed
  tokens, (b) reject tokens whose signature does not match, (c) reject tokens past their
  expiry.
\<close>

definition token_verify :: "'tag scheme \<Rightarrow> string \<Rightarrow> string \<Rightarrow> nat \<Rightarrow> token_error + payload" where
  "token_verify sch token secret now =
     (case decode sch token of
        None \<Rightarrow> Inl Malformed
      | Some t \<Rightarrow>
          if t_signature t \<noteq> mac sch secret (t_payload t) then Inl SignatureMismatch
          else if exp (t_payload t) < now then Inl Expired
          else Inr (t_payload t))"

section \<open>Credential Hasher\<close>

text \<open>
  Modelled from the spec: the contract of the Credential Hasher. The bcrypt package
  (\<^verbatim>\<open>bcrypt.hash\<close>, \<^verbatim>\<open>bcrypt.compare\<close>) is not under src/. Sections 3, 4.1 and 8
  of the spec: the password field holds a hash, never the plaintext, and
  \<^verbatim>\<open>verify(plaintext, stored)\<close> returns true for the stored hash of the plaintext.
\<close>

definition hasher_sound ::
  "(nat \<Rightarrow> string \<Rightarrow> nat \<Rightarrow> string + string) \<Rightarrow> (string \<Rightarrow> string \<Rightarrow> string + bool) \<Rightarrow> bool" where
  "hasher_sound hash compare =
     (\<forall>salt plaintext rounds h.
        hash salt plaintext rounds = Inr h \<longrightarrow> h \<noteq> plaintext \<and> compare plaintext h = Inr True)"

text \<open>
  Modelled from the spec: the failure condition of the Credential Hasher (the bcrypt
  package is not under src/), section 4.1: if the stored hash is malformed or of a foreign
  format, verification must fail closed (treat as non-match) and never raise. Which
  strings are well formed is the package's matter, here the parameter \<open>well_formed\<close>.
\<close>

definition fails_closed ::
  "(string \<Rightarrow> bool) \<Rightarrow> (string \<Rightarrow> string \<Rightarrow> string + bool) \<Rightarrow> bool" where
  "fails_closed well_formed compare =
     (\<forall>plaintext stored. \<not> well_formed stored \<longrightarrow> compare plaintext stored = Inr False)"

section \<open>Observations used in the statements\<close>

text \<open>
  Every protected route (POST, PUT and DELETE on posts, GET profile) answers a request
  with \<open>r\<close> and leaves the state as it was.
\<close>

definition protected_routes_answer ::
  "(string \<Rightarrow> string \<Rightarrow> nat \<Rightarrow> 'e + payload) \<Rightarrow> string \<Rightarrow> nat \<Rightarrow> string option \<Rightarrow>
   nat \<Rightarrow> post_body \<Rightarrow> world \<Rightarrow> response \<Rightarrow> bool" where
  "protected_routes_answer verify secret now authorization pid b w r =
     (create_post verify secret now authorization b w = (r, w) \<and>
      put_post verify secret now authorization pid b w = (r, w) \<and>
      delete_post_route verify secret now authorization pid w = (r, w) \<and>
      profile verify secret now authorization w = (r, w))"

text \<open>The rows of a table, none if the table or the database is missing.\<close>

definition user_rows :: "world \<Rightarrow> user_row list" where
  "user_rows w =
     (case db (mysql w) of
        None \<Rightarrow> []
      | Some d \<Rightarrow> (case users d of None \<Rightarrow> [] | Some t \<Rightarrow> rows t))"

definition post_rows :: "world \<Rightarrow> post_row list" where
  "post_rows w =
     (case db (mysql w) of
        None \<Rightarrow> []
      | Some d \<Rightarrow> (case posts d of None \<Rightarrow> [] | Some t \<Rightarrow> rows t))"

text \<open>A stored account row comes from a seed: same names, and the password column holds a
  hash of the seed's password.\<close>

definition seeded ::
  "(nat \<Rightarrow> string \<Rightarrow> nat \<Rightarrow> string + string) \<Rightarrow> user_row \<Rightarrow> mock_user \<Rightarrow> bool" where
  "seeded hash r m =
     (u_username r = m_username m \<and> u_email r = m_email m \<and>
      (\<exists>salt. hash salt (m_password m) 10 = Inr (u_password r)))"

text \<open>A stored post row comes from a seed post.\<close>

definition seeded_post :: "post_row \<Rightarrow> mock_post \<Rightarrow> bool" where
  "seeded_post r m =
     (p_title r = m_title m \<and> p_content r = m_content m \<and> p_user_id r = m_user_id m)"

text \<open>
  The steps a run has recorded: all succeeded, or all but the last succeeded and the last
  failed with the error the run ended with.
\<close>

definition all_succeeded :: "(step \<times> error option) list \<Rightarrow> bool" where
  "all_succeeded ts = (\<forall>x \<in> set ts. snd x = None)"

definition ran_until :: "error + 'a \<Rightarrow> (step \<times> error option) list \<Rightarrow> bool" where
  "ran_until r ts =
     (case r of
        Inr a \<Rightarrow> all_succeeded ts
      | Inl e \<Rightarrow> ts \<noteq> [] \<and> snd (last ts) = Some e \<and> all_succeeded (butlast ts))"

definition stepwise :: "(world \<Rightarrow> (error + 'a) \<times> world) \<Rightarrow> bool" where
  "stepwise m = (\<forall>w r w'. m w = (r, w') \<longrightarrow> (\<exists>ts. trace w' = trace w @ ts \<and> ran_until r ts))"

text \<open>
  What a computation does to the account rows: it keeps them, or it appends rows that come
  from the first seeds of a list, in order.
\<close>

definition keeps_users :: "(world \<Rightarrow> (error + 'a) \<times> world) \<Rightarrow> bool" where
  "keeps_users m = (\<forall>w r w'. m w = (r, w') \<longrightarrow> user_rows w' = user_rows w)"

definition adds_seeds ::
  "(nat \<Rightarrow> string \<Rightarrow> nat \<Rightarrow> string + string) \<Rightarrow> mock_user list \<Rightarrow>
   (world \<Rightarrow> (error + 'a) \<times> world) \<Rightarrow> bool" where
  "adds_seeds hash us m =
     (\<forall>w r w'. m w = (r, w') \<longrightarrow>
        (\<exists>new. user_rows w' = user_rows w @ new \<and>
               list_all2 (seeded hash) new (take (length new) us)))"

section \<open>Sample inputs\<close>


definition johns_token :: "string \<Rightarrow> string \<Rightarrow> nat \<Rightarrow> unit + payload" where
  "johns_token t s n =
     (if t = ''john'' then Inr \<lparr>c_id = 1, c_email = ''john@example.com'', iat = 0, exp = 86400\<rparr>
      else Inl ())"

definition rejecting_verify :: "string \<Rightarrow> string \<Rightarrow> nat \<Rightarrow> unit + payload" where
  "rejecting_verify t s n = Inl ()"


definition one_post :: world where
  "one_post =
     \<lparr>mysql = \<lparr>db = Some
         \<lparr>users = Some \<lparr>rows = [], auto_increment = 3\<rparr>,
          posts = Some \<lparr>rows = [\<lparr>p_id = 1, p_title = ''t'', p_content = ''c'', p_user_id = 1,
                                  p_created_at = 5\<rparr>], auto_increment = 2\<rparr>\<rparr>,
       clock = 7\<rparr>,
      conn = NotConnected, trace = [], faults = [], draws = 0\<rparr>"

definition toy_hash :: "nat \<Rightarrow> string \<Rightarrow> nat \<Rightarrow> string + string" where
  "toy_hash salt plaintext rounds = Inr (''$2b$'' @ plaintext)"

definition toy_compare :: "string \<Rightarrow> string \<Rightarrow> string + bool" where
  "toy_compare plaintext stored = Inr (stored = ''$2b$'' @ plaintext)"

definition fresh_server :: world where
  "fresh_server =
     \<lparr>mysql = \<lparr>db = None, clock = 100\<rparr>,
      conn = NotConnected, trace = [], faults = [], draws = 0\<rparr>"

definition lonely_store :: world where
  "lonely_store =
     \<lparr>mysql = \<lparr>db = Some
         \<lparr>users = Some \<lparr>rows = [\<lparr>u_id = 3, u_username = ''carol'', u_email = ''carol@example.com'',
                                  u_password = ''$2b$pw'', u_created_at = 50\<rparr>],
                        auto_increment = 4\<rparr>,
          posts = Some \<lparr>rows = [], auto_increment = 6\<rparr>\<rparr>,
       clock = 100\<rparr>,
      conn = NotConnected, trace = [], faults = [], draws = 0\<rparr>"

definition john_row :: user_row where
  "john_row = \<lparr>u_id = 1, u_username = ''johndoe'', u_email = ''john@example.com'',
                u_password = ''$2b$password123'', u_created_at = 100\<rparr>"

definition jane_row :: user_row where
  "jane_row = \<lparr>u_id = 2, u_username = ''janedoe'', u_email = ''jane@example.com'',
                u_password = ''$2b$password456'', u_created_at = 100\<rparr>"

definition dave_row :: user_row where
  "dave_row = \<lparr>u_id = 3, u_username = ''dave'', u_email = ''dave@example.com'',
                u_password = ''hunter2'', u_created_at = 150\<rparr>"

definition sample_users :: "user_row table" where
  "sample_users = \<lparr>rows = [john_row, jane_row, dave_row], auto_increment = 4\<rparr>"

definition sample_posts :: "post_row table" where
  "sample_posts = \<lparr>rows = [], auto_increment = 6\<rparr>"

definition sample_db :: database where
  "sample_db = \<lparr>users = Some sample_users, posts = Some sample_posts\<rparr>"

definition sample_store :: world where
  "sample_store =
     \<lparr>mysql = \<lparr>db = Some sample_db, clock = 200\<rparr>,
      conn = NotConnected, trace = [], faults = [], draws = 2\<rparr>"

definition well_formed_hash :: "string \<Rightarrow> bool" where
  "well_formed_hash stored = (take 4 stored = ''$2b$'')"

definition ghost_token :: "string \<Rightarrow> string \<Rightarrow> nat \<Rightarrow> unit + payload" where
  "ghost_token t s n =
     (if t = ''ghost'' then Inr \<lparr>c_id = 9, c_email = ''ghost@example.com'', iat = 0, exp = 86400\<rparr>
      else Inl ())"

definition john_payload :: payload where
  "john_payload = \<lparr>c_id = 1, c_email = ''john@example.com'', iat = 1000, exp = 1000 + 24 * 60 * 60\<rparr>"

definition toy_scheme :: "(string \<times> payload) scheme" where
  "toy_scheme =
     \<lparr>mac = (\<lambda>k p. (k, p)),
      encode = (\<lambda>t. if t_payload t = john_payload then ''john.token'' else ''forged.token''),
      decode = (\<lambda>s. if s = ''john.token''
                      then Some \<lparr>t_payload = john_payload,
                                 t_signature = (''s3cret'', john_payload)\<rparr>
                      else if s = ''forged.token''
                      then Some \<lparr>t_payload = john_payload\<lparr>c_id := 2\<rparr>,
                                 t_signature = (''s3cret'', john_payload)\<rparr>
                      else None)\<rparr>"

section \<open>Properties of the Request Authenticator\<close>

lemma split_not_Nil: "split sep s \<noteq> []"
  by (induction s) (auto split: list.splits)

lemma split_no_sep: "sep \<notin> set s \<Longrightarrow> split sep s = [s]"
  by (induction s) auto

lemma split_two:
  "sep \<notin> set a \<Longrightarrow> sep \<notin> set b \<Longrightarrow> split sep (a @ sep # b) = [a, b]"
  by (induction a) (auto simp: split_no_sep)

lemma extract_token_scheme_credential:
  "CHR '' '' \<notin> set scheme \<Longrightarrow> CHR '' '' \<notin> set credential \<Longrightarrow>
   extract_token (Some (scheme @ CHR '' '' # credential)) = Some credential"
  by (simp add: extract_token_def index_def split_two)

lemma split_first:
  "sep \<notin> set a \<Longrightarrow> split sep (a @ sep # rest) = a # split sep rest"
  by (induction a) auto

lemma extract_token_second_piece:
  "CHR '' '' \<notin> set scheme \<Longrightarrow> CHR '' '' \<notin> set credential \<Longrightarrow>
   extract_token (Some (scheme @ CHR '' '' # credential @ CHR '' '' # rest)) = Some credential"
  by (simp add: extract_token_def index_def split_first)

lemma extract_token_one_piece:
  "CHR '' '' \<notin> set h \<Longrightarrow> extract_token (Some h) = None"
  by (simp add: extract_token_def index_def split_no_sep)

lemma protected_routes_rejected:
  assumes "authMiddleware verify secret now authorization = Responded r"
  shows "protected_routes_answer verify secret now authorization pid b w r"
  using assms
  by (simp add: protected_routes_answer_def create_post_def put_post_def
      delete_post_route_def profile_def)

text \<open>
  C2 (as amended). The middleware of the protected routes: when the header is absent, or
  splitting it at spaces leaves no second piece or an empty one (so no credential part is
  extracted), the answer is 401 "No token provided". Otherwise the second piece is the
  credential, whatever the first piece is and whatever pieces follow: when its
  verification throws, whatever the error, the answer is 401 "Invalid token", and when it
  verifies the request passes. In particular a header without a space gives the first
  answer, and a header "scheme credential" hands exactly the credential to verification.
  What the middleware answers is the answer of each protected route, and the store is not
  touched.
\<close>

theorem C2_auth_rejections:
  "(extract_token authorization = None \<or> extract_token authorization = Some [] \<longrightarrow>
      authMiddleware verify secret now authorization
        = Responded (respond 401 (error_body ''No token provided'')))
   \<and> (extract_token authorization = Some token \<and> token \<noteq> [] \<and> verify token secret now = Inl e \<longrightarrow>
      authMiddleware verify secret now authorization
        = Responded (respond 401 (error_body ''Invalid token'')))
   \<and> authMiddleware verify secret now None
        = Responded (respond 401 (error_body ''No token provided''))
   \<and> (CHR '' '' \<notin> set h \<longrightarrow>
      authMiddleware verify secret now (Some h)
        = Responded (respond 401 (error_body ''No token provided'')))
   \<and> (CHR '' '' \<notin> set scheme \<and> CHR '' '' \<notin> set token \<and> token \<noteq> [] \<and>
      verify token secret now = Inl e \<longrightarrow>
      authMiddleware verify secret now (Some (scheme @ CHR '' '' # token))
        = Responded (respond 401 (error_body ''Invalid token'')))
   \<and> (authMiddleware verify secret now authorization = Responded r \<longrightarrow>
      protected_routes_answer verify secret now authorization pid b w r)
   \<and> (CHR '' '' \<notin> set scheme \<and> CHR '' '' \<notin> set token \<and> token \<noteq> [] \<and>
      verify token secret now = Inl e \<longrightarrow>
      authMiddleware verify secret now (Some (scheme @ CHR '' '' # token @ CHR '' '' # rest))
        = Responded (respond 401 (error_body ''Invalid token'')))
   \<and> (CHR '' '' \<notin> set scheme \<and> CHR '' '' \<notin> set token \<and> token \<noteq> [] \<and>
      verify token secret now = Inr user \<longrightarrow>
      authMiddleware verify secret now (Some (scheme @ CHR '' '' # token @ CHR '' '' # rest))
        = Next user)"
proof -
  have absent: "extract_token None = None"
    by (simp add: extract_token_def)
  have further:
    "(CHR '' '' \<notin> set scheme \<and> CHR '' '' \<notin> set token \<and> token \<noteq> [] \<and>
      verify token secret now = Inl e \<longrightarrow>
      authMiddleware verify secret now (Some (scheme @ CHR '' '' # token @ CHR '' '' # rest))
        = Responded (respond 401 (error_body ''Invalid token'')))
   \<and> (CHR '' '' \<notin> set scheme \<and> CHR '' '' \<notin> set token \<and> token \<noteq> [] \<and>
      verify token secret now = Inr user \<longrightarrow>
      authMiddleware verify secret now (Some (scheme @ CHR '' '' # token @ CHR '' '' # rest))
        = Next user)"
    by (auto simp: authMiddleware_def extract_token_second_piece)
  have middleware:
    "(extract_token authorization = None \<or> extract_token authorization = Some [] \<longrightarrow>
      authMiddleware verify secret now authorization
        = Responded (respond 401 (error_body ''No token provided'')))
   \<and> (extract_token authorization = Some token \<and> token \<noteq> [] \<and> verify token secret now = Inl e \<longrightarrow>
      authMiddleware verify secret now authorization
        = Responded (respond 401 (error_body ''Invalid token'')))
   \<and> authMiddleware verify secret now None
        = Responded (respond 401 (error_body ''No token provided''))
   \<and> (CHR '' '' \<notin> set h \<longrightarrow>
      authMiddleware verify secret now (Some h)
        = Responded (respond 401 (error_body ''No token provided'')))
   \<and> (CHR '' '' \<notin> set scheme \<and> CHR '' '' \<notin> set token \<and> token \<noteq> [] \<and>
      verify token secret now = Inl e \<longrightarrow>
      authMiddleware verify secret now (Some (scheme @ CHR '' '' # token))
        = Responded (respond 401 (error_body ''Invalid token'')))"
    by (auto simp: authMiddleware_def extract_token_scheme_credential
             extract_token_one_piece absent)
  show ?thesis
    using middleware further
      protected_routes_rejected [of verify secret now authorization r pid b w]
    by blast
qed

theorem C2_auth_rejections_witness:
  "authMiddleware rejecting_verify ''s3cret'' 0 None
     = Responded (respond 401 (error_body ''No token provided''))
   \<and> authMiddleware rejecting_verify ''s3cret'' 0 (Some ''Bearer'')
     = Responded (respond 401 (error_body ''No token provided''))
   \<and> authMiddleware rejecting_verify ''s3cret'' 0 (Some ''Bearer '')
     = Responded (respond 401 (error_body ''No token provided''))
   \<and> authMiddleware rejecting_verify ''s3cret'' 0 (Some ''Bearer abc'')
     = Responded (respond 401 (error_body ''Invalid token''))
   \<and> authMiddleware rejecting_verify ''s3cret'' 0 (Some ''Bearer abc def'')
     = Responded (respond 401 (error_body ''Invalid token''))
   \<and> authMiddleware johns_token ''k'' 10 (Some ''Bearer john and more'')
     = Next \<lparr>c_id = 1, c_email = ''john@example.com'', iat = 0, exp = 86400\<rparr>
   \<and> put_post rejecting_verify ''s3cret'' 0 (Some ''Bearer '') 1
       \<lparr>b_title = ''x'', b_content = ''y''\<rparr> one_post
     = (respond 401 (error_body ''No token provided''), one_post)"
proof -
  have none: "extract_token (Some ''Bearer '') = Some []"
    by (simp add: extract_token_def index_def)
  have space: "CHR '' '' \<notin> set ''Bearer''" "CHR '' '' \<notin> set ''abc''"
    "CHR '' '' \<notin> set ''john''"
    by simp_all
  have throws: "rejecting_verify ''abc'' ''s3cret'' 0 = Inl ()"
    by (simp add: rejecting_verify_def)
  have verifies: "johns_token ''john'' ''k'' 10
                  = Inr \<lparr>c_id = 1, c_email = ''john@example.com'', iat = 0, exp = 86400\<rparr>"
    by (simp add: johns_token_def)
  from C2_auth_rejections [where verify = rejecting_verify and secret = "''s3cret''" and now = 0
      and authorization = "Some ''Bearer ''" and h = "''Bearer''"
      and scheme = "''Bearer''" and token = "''abc''" and e = "()" and rest = "''def''"
      and r = "respond 401 (error_body ''No token provided'')"
      and b = "\<lparr>b_title = ''x'', b_content = ''y''\<rparr>" and w = one_post and pid = 1]
    C2_auth_rejections [where verify = johns_token and secret = "''k''" and now = 10
      and scheme = "''Bearer''" and token = "''john''" and rest = "''and more''"
      and user = "\<lparr>c_id = 1, c_email = ''john@example.com'', iat = 0, exp = 86400\<rparr>"]
    none space throws verifies
  show ?thesis
    by (simp add: protected_routes_answer_def)
qed

text \<open>
  C2 as first stated fails: a header of three pieces is not of the two-piece shape
  "scheme credential", yet its second piece is taken as the credential. When that piece
  does not verify the answer is "Invalid token", not "No token provided", and when it
  verifies the request passes.
\<close>

theorem C2_counterexample:
  "split CHR '' '' ''Bearer abc def'' = [''Bearer'', ''abc'', ''def'']
   \<and> authMiddleware rejecting_verify ''s3cret'' 0 (Some ''Bearer abc def'')
       = Responded (respond 401 (error_body ''Invalid token''))
   \<and> authMiddleware rejecting_verify ''s3cret'' 0 (Some ''Bearer abc def'')
       \<noteq> Responded (respond 401 (error_body ''No token provided''))
   \<and> split CHR '' '' ''Bearer john and more'' = [''Bearer'', ''john'', ''and'', ''more'']
   \<and> authMiddleware johns_token ''k'' 10 (Some ''Bearer john and more'')
       = Next \<lparr>c_id = 1, c_email = ''john@example.com'', iat = 0, exp = 86400\<rparr>"
  by (simp add: authMiddleware_def extract_token_def index_def rejecting_verify_def
      johns_token_def respond_def error_body_def)

section \<open>Steps and statements\<close>

lemma sample_facts:
  "length (trace sample_store) \<notin> set (faults sample_store)"
  "db (mysql sample_store) = Some sample_db"
  "users sample_db = Some sample_users"
  "posts sample_db = Some sample_posts"
  "faults sample_store = []"
  by (simp_all add: sample_store_def sample_db_def)

lemma log_step_fields [simp]:
  "mysql (log_step st out w) = mysql w"
  "conn (log_step st out w) = conn w"
  "faults (log_step st out w) = faults w"
  "draws (log_step st out w) = draws w"
  "trace (log_step st out w) = trace w @ [(st, out)]"
  by (simp_all add: log_step_def)

lemma network_ok:
  "length (trace w) \<notin> set (faults w) \<Longrightarrow> act w = Inr (a, w1) \<Longrightarrow>
   network st act w = (Inr a, log_step st None w1)"
  by (simp add: network_def)

lemma in_database_same:
  assumes "db (mysql w) = Some d" "sem d = Inr (a, d)"
  shows "in_database sem w = Inr (a, w)"
proof -
  have same: "w\<lparr>mysql := (mysql w)\<lparr>db := Some d\<rparr>\<rparr> = w"
    using assms(1) by simp
  show ?thesis
    using assms by (simp add: in_database_def same)
qed

lemma table_query_same:
  assumes "length (trace w) \<notin> set (faults w)" "conn w = Open True"
    "db (mysql w) = Some d" "sem d = Inr (a, d)"
  shows "table_query stmt sem w = (Inr a, log_step (Query stmt) None w)"
  using assms
  by (simp add: table_query_def connection_query_def network_ok in_database_same)

lemma settled:
  assumes quiet: "faults w = []"
    and d: "db (mysql w) = Some d"
    and u: "users d = Some ut" "rows ut \<noteq> []"
    and p: "posts d = Some pt" "rows pt \<noteq> []"
  shows "\<exists>w'. createTables hash w = (Inr (), w') \<and> mysql w' = mysql w \<and> conn w' = Closed"
proof -
  have same: "(mysql w)\<lparr>db := Some d\<rparr> = mysql w" using d by simp
  have cu: "create_users_table d = Inr ((), d)" using u by (simp add: create_users_table_def)
  have cp: "create_posts_table d = Inr ((), d)" using p by (simp add: create_posts_table_def)
  have nu: "count_users d = Inr (length (rows ut), d)" using u by (simp add: count_users_def)
  have np: "count_posts d = Inr (length (rows pt), d)" using p by (simp add: count_posts_def)
  show ?thesis
    using quiet d u(2) p(2)
    by (simp add: createTables_def createConnection_def network_def createTables_try_def and_then_def
        create_database_query_def use_database_query_def connection_query_def
        create_database_def succeed_def connection_end_def
        table_query_same [where d = d and sem = create_users_table]
        table_query_same [where d = d and sem = create_posts_table]
        table_query_same [where d = d and sem = count_users]
        table_query_same [where d = d and sem = count_posts] cu cp nu np same)
qed

lemma network_Inr:
  "network st act w = (Inr a, w') \<Longrightarrow> \<exists>w1. act w = Inr (a, w1) \<and> w' = log_step st None w1"
  by (auto simp: network_def split: if_splits sum.splits)

lemma in_database_Inr:
  "in_database sem w = Inr (a, w1) \<Longrightarrow>
   \<exists>d d'. db (mysql w) = Some d \<and> sem d = Inr (a, d') \<and>
          w1 = w\<lparr>mysql := (mysql w)\<lparr>db := Some d'\<rparr>\<rparr>"
  by (auto simp: in_database_def split: option.splits sum.splits)

lemma table_query_Inr:
  assumes "table_query stmt sem w = (Inr a, w')"
  shows "\<exists>d d'. db (mysql w) = Some d \<and> sem d = Inr (a, d') \<and> db (mysql w') = Some d' \<and>
           clock (mysql w') = clock (mysql w) \<and> conn w = Open True \<and> conn w' = Open True \<and>
           faults w' = faults w"
proof -
  from assms obtain w1 where
    act: "(case conn w of Open selected \<Rightarrow>
             if conn w = Open True then in_database sem w else Inl (Sql ER_NO_DB_ERROR)
           | NotConnected \<Rightarrow> Inl ConnectionClosed
           | Closed \<Rightarrow> Inl ConnectionClosed) = Inr (a, w1)"
    and w': "w' = log_step (Query stmt) None w1"
    unfolding table_query_def connection_query_def by (blast dest: network_Inr)
  from act have sel: "conn w = Open True" and run: "in_database sem w = Inr (a, w1)"
    by (auto split: conn_state.splits if_splits)
  from in_database_Inr [OF run] obtain d d' where
    "db (mysql w) = Some d" "sem d = Inr (a, d')" "w1 = w\<lparr>mysql := (mysql w)\<lparr>db := Some d'\<rparr>\<rparr>"
    by blast
  with sel w' show ?thesis by simp
qed

lemma and_then_Inr:
  "and_then m f w = (Inr b, w') \<Longrightarrow> \<exists>a w1. m w = (Inr a, w1) \<and> f a w1 = (Inr b, w')"
  by (auto simp: and_then_def split: prod.splits sum.splits)

lemma insert_post_Inr:
  "insert_post now title content uid d = Inr (i, d') \<Longrightarrow>
   \<exists>pt. posts d = Some pt \<and> users d' = users d \<and> i = auto_increment pt \<and>
        uid \<in> set (map u_id (case users d of None \<Rightarrow> [] | Some ut \<Rightarrow> rows ut)) \<and>
        posts d' = Some \<lparr>rows = rows pt @
                     [\<lparr>p_id = auto_increment pt, p_title = title, p_content = content,
                       p_user_id = uid, p_created_at = now\<rparr>],
                   auto_increment = auto_increment pt + 1\<rparr>"
  by (auto simp: insert_post_def split: option.splits if_splits)

lemma insert_user_Inr:
  "insert_user now username email password d = Inr (i, d') \<Longrightarrow>
   \<exists>ut. users d = Some ut \<and> posts d' = posts d \<and> i = auto_increment ut \<and>
        users d' = Some \<lparr>rows = rows ut @
                     [\<lparr>u_id = auto_increment ut, u_username = username, u_email = email,
                       u_password = password, u_created_at = now\<rparr>],
                   auto_increment = auto_increment ut + 1\<rparr>"
  by (auto simp: insert_user_def split: option.splits if_splits)

lemma seed_posts_Inr:
  "seed_posts ps w = (Inr u, w') \<Longrightarrow> db (mysql w) = Some d \<Longrightarrow> ps \<noteq> [] \<or> posts d = Some pt \<Longrightarrow>
   \<exists>d' pt'. db (mysql w') = Some d' \<and> users d' = users d \<and> posts d' = Some pt' \<and>
     length (rows pt') = (case posts d of None \<Rightarrow> 0 | Some pt \<Rightarrow> length (rows pt)) + length ps"
proof (induction ps arbitrary: w d pt)
  case Nil
  then show ?case by (simp add: succeed_def)
next
  case (Cons post rest)
  from Cons.prems(1) obtain i w1 where
    ins: "table_query InsertPost
            (insert_post (clock (mysql w)) (m_title post) (m_content post) (m_user_id post)) w
          = (Inr i, w1)"
    and rest: "seed_posts rest w1 = (Inr u, w')"
    by (auto dest: and_then_Inr)
  from table_query_Inr [OF ins] Cons.prems(2) obtain d1 where
    d1: "insert_post (clock (mysql w)) (m_title post) (m_content post) (m_user_id post) d
         = Inr (i, d1)" "db (mysql w1) = Some d1"
    by auto
  from insert_post_Inr [OF d1(1)] obtain pt0 pt1 where
    p: "posts d = Some pt0" "users d1 = users d" "posts d1 = Some pt1"
       "length (rows pt1) = length (rows pt0) + 1"
    by auto
  from Cons.IH [OF rest d1(2), of pt1] p(3) obtain d' pt' where
    "db (mysql w') = Some d'" "users d' = users d1" "posts d' = Some pt'"
    "length (rows pt') = length (rows pt1) + length rest"
    by auto
  with p show ?case by simp
qed

lemma bcrypt_hash_Inr:
  "bcrypt_hash hash p n w = (Inr h, w') \<Longrightarrow>
   hash (draws w) p n = Inr h \<and> mysql w' = mysql w \<and> conn w' = conn w \<and> faults w' = faults w"
  by (auto simp: bcrypt_hash_def split: sum.splits)

lemma seed_users_Inr:
  "seed_users hash us w = (Inr u, w') \<Longrightarrow> db (mysql w) = Some d \<Longrightarrow> users d = Some ut \<Longrightarrow>
   \<exists>d' ut' new. db (mysql w') = Some d' \<and> posts d' = posts d \<and> users d' = Some ut' \<and>
     rows ut' = rows ut @ new \<and> list_all2 (seeded hash) new us"
proof (induction us arbitrary: w d ut)
  case Nil
  then show ?case by (simp add: succeed_def)
next
  case (Cons user rest)
  from Cons.prems(1) obtain h w1 i w2 where
    h: "bcrypt_hash hash (m_password user) 10 w = (Inr h, w1)"
    and ins: "table_query InsertUser
            (insert_user (clock (mysql w1)) (m_username user) (m_email user) h) w1 = (Inr i, w2)"
    and rest: "seed_users hash rest w2 = (Inr u, w')"
    by (auto dest!: and_then_Inr)
  from bcrypt_hash_Inr [OF h] have
    hh: "hash (draws w) (m_password user) 10 = Inr h" and same: "mysql w1 = mysql w"
    by auto
  from table_query_Inr [OF ins] Cons.prems(2) same obtain d2 where
    d2: "insert_user (clock (mysql w1)) (m_username user) (m_email user) h d = Inr (i, d2)"
        "db (mysql w2) = Some d2"
    by auto
  from insert_user_Inr [OF d2(1)] Cons.prems(3) obtain ut2 r where
    p: "posts d2 = posts d" "users d2 = Some ut2" "rows ut2 = rows ut @ [r]"
       "u_username r = m_username user" "u_email r = m_email user" "u_password r = h"
    by auto
  from Cons.IH [OF rest d2(2) p(2)] obtain d' ut' new where
    r: "db (mysql w') = Some d'" "posts d' = posts d2" "users d' = Some ut'"
    "rows ut' = rows ut2 @ new" "list_all2 (seeded hash) new rest"
    by auto
  have "seeded hash r user"
    using p hh by (auto simp: seeded_def)
  with r p have "rows ut' = rows ut @ (r # new) \<and> list_all2 (seeded hash) (r # new) (user # rest)"
    by simp
  with r p show ?case by metis
qed

lemma create_users_table_Inr:
  "create_users_table d = Inr (u, d') \<Longrightarrow>
   posts d' = posts d \<and>
   (\<exists>ut. users d' = Some ut \<and> rows ut = (case users d of None \<Rightarrow> [] | Some t \<Rightarrow> rows t))"
  by (auto simp: create_users_table_def empty_table_def split: option.splits)

lemma create_posts_table_Inr:
  "create_posts_table d = Inr (u, d') \<Longrightarrow>
   users d' = users d \<and>
   (\<exists>pt. posts d' = Some pt \<and> rows pt = (case posts d of None \<Rightarrow> [] | Some t \<Rightarrow> rows t))"
  by (auto simp: create_posts_table_def empty_table_def split: option.splits)

lemma count_users_Inr:
  "count_users d = Inr (n, d') \<Longrightarrow> d' = d \<and> (\<exists>ut. users d = Some ut \<and> n = length (rows ut))"
  by (auto simp: count_users_def split: option.splits)

lemma count_posts_Inr:
  "count_posts d = Inr (n, d') \<Longrightarrow> d' = d \<and> (\<exists>pt. posts d = Some pt \<and> n = length (rows pt))"
  by (auto simp: count_posts_def split: option.splits)

lemma connection_query_Inr:
  "connection_query stmt act w = (Inr a, w') \<Longrightarrow>
   \<exists>w1. act w = Inr (a, w1) \<and> w' = log_step (Query stmt) None w1"
  unfolding connection_query_def
  by (auto dest!: network_Inr split: conn_state.splits)

lemma create_database_query_Inr:
  "create_database_query w = (Inr u, w') \<Longrightarrow>
   \<exists>d. db (mysql w') = Some d \<and> user_rows w' = user_rows w \<and> post_rows w' = post_rows w"
  unfolding create_database_query_def
  by (auto dest!: connection_query_Inr
      simp: create_database_def user_rows_def post_rows_def split: option.splits)

lemma use_database_query_Inr:
  "use_database_query w = (Inr u, w') \<Longrightarrow> mysql w' = mysql w"
  unfolding use_database_query_def
  by (auto dest!: connection_query_Inr split: option.splits)

lemma createTables_try_Inr:
  assumes run: "createTables_try hash w = (Inr u, w')"
  shows "\<exists>d ut pt new. db (mysql w') = Some d \<and> users d = Some ut \<and> posts d = Some pt \<and>
           rows ut \<noteq> [] \<and> rows pt \<noteq> [] \<and> rows ut = user_rows w @ new \<and>
           (new = [] \<or> user_rows w = [] \<and> list_all2 (seeded hash) new mockUsers)"
proof -
  from run obtain w1 w2 w3 w4 w5 w6 w7 nu np where
    s1: "create_database_query w = (Inr (), w1)"
    and s2: "use_database_query w1 = (Inr (), w2)"
    and s3: "table_query CreateUsersTable create_users_table w2 = (Inr (), w3)"
    and s4: "table_query CreatePostsTable create_posts_table w3 = (Inr (), w4)"
    and s5: "table_query CountUsers count_users w4 = (Inr nu, w5)"
    and s6: "(if nu = 0 then seed_users hash mockUsers else succeed ()) w5 = (Inr (), w6)"
    and s7: "table_query CountPosts count_posts w6 = (Inr np, w7)"
    and s8: "(if np = 0 then seed_posts mockPosts else succeed ()) w7 = (Inr u, w')"
    unfolding createTables_try_def by (auto dest!: and_then_Inr)
  from create_database_query_Inr [OF s1] use_database_query_Inr [OF s2]
  have r2: "user_rows w2 = user_rows w"
    by (auto simp: user_rows_def)
  from table_query_Inr [OF s3] obtain d2 d3 where
    d3: "db (mysql w2) = Some d2" "create_users_table d2 = Inr ((), d3)" "db (mysql w3) = Some d3"
    by auto
  from create_users_table_Inr [OF d3(2)] d3(1) r2 obtain ut3 where
    u3: "users d3 = Some ut3" "rows ut3 = user_rows w"
    by (auto simp: user_rows_def)
  from table_query_Inr [OF s4] d3(3) obtain d4 where
    d4: "create_posts_table d3 = Inr ((), d4)" "db (mysql w4) = Some d4"
    by auto
  from create_posts_table_Inr [OF d4(1)] u3 obtain pt4 where
    p4: "users d4 = Some ut3" "posts d4 = Some pt4"
    by auto
  from table_query_Inr [OF s5] d4(2) obtain d5 where
    d5: "count_users d4 = Inr (nu, d5)" "db (mysql w5) = Some d5"
    by auto
  from count_users_Inr [OF d5(1)] p4 have
    n5: "d5 = d4" "nu = length (rows ut3)"
    by auto
  have "\<exists>d6 ut6 new. db (mysql w6) = Some d6 \<and> posts d6 = Some pt4 \<and> users d6 = Some ut6 \<and>
          rows ut6 \<noteq> [] \<and> rows ut6 = user_rows w @ new \<and>
          (new = [] \<or> user_rows w = [] \<and> list_all2 (seeded hash) new mockUsers)"
  proof (cases "nu = 0")
    case True
    with s6 have "seed_users hash mockUsers w5 = (Inr (), w6)" by simp
    from seed_users_Inr [OF this d5(2)] n5 p4 obtain d6 ut6 new where
      "db (mysql w6) = Some d6" "posts d6 = Some pt4" "users d6 = Some ut6"
      "rows ut6 = rows ut3 @ new" "list_all2 (seeded hash) new mockUsers"
      by auto
    moreover from this have "new \<noteq> []"
      by (auto simp: mockUsers_def)
    ultimately show ?thesis
      using True n5 u3 by auto
  next
    case False
    with s6 have "w6 = w5" by (simp add: succeed_def)
    with False d5 n5 p4 u3 show ?thesis by auto
  qed
  then obtain d6 ut6 new where
    d6: "db (mysql w6) = Some d6" "posts d6 = Some pt4" "users d6 = Some ut6"
    "rows ut6 \<noteq> []" "rows ut6 = user_rows w @ new"
    "new = [] \<or> user_rows w = [] \<and> list_all2 (seeded hash) new mockUsers"
    by blast
  from table_query_Inr [OF s7] d6(1) obtain d7 where
    d7: "count_posts d6 = Inr (np, d7)" "db (mysql w7) = Some d7"
    by auto
  from count_posts_Inr [OF d7(1)] d6 have
    n7: "d7 = d6" "np = length (rows pt4)"
    by auto
  have "\<exists>d8 pt8. db (mysql w') = Some d8 \<and> users d8 = Some ut6 \<and> posts d8 = Some pt8 \<and>
          rows pt8 \<noteq> []"
  proof (cases "np = 0")
    case True
    with s8 have "seed_posts mockPosts w7 = (Inr u, w')" by simp
    from seed_posts_Inr [OF this d7(2), of pt4] n7 d6 obtain d8 pt8 where
      "db (mysql w') = Some d8" "users d8 = Some ut6" "posts d8 = Some pt8"
      "length (rows pt8) = length (rows pt4) + length mockPosts"
      by auto
    moreover from this have "rows pt8 \<noteq> []"
      by (auto simp: mockPosts_def)
    ultimately show ?thesis by auto
  next
    case False
    with s8 have "w' = w7" by (simp add: succeed_def)
    with False d7 n7 d6 show ?thesis by auto
  qed
  with d6 show ?thesis by blast
qed

section \<open>Ownership-scoped update and delete\<close>




lemma pool_query_same:
  assumes "length (trace w) \<notin> set (faults w)" "db (mysql w) = Some d" "sem d = Inr (a, d)"
  shows "pool_query stmt sem w = (Inr a, log_step (Query stmt) None w)"
  using assms by (simp add: pool_query_def network_ok in_database_same)



section \<open>A failed step ends the bootstrap\<close>

lemma stepwise_network:
  assumes "\<And>w a w1. act w = Inr (a, w1) \<Longrightarrow> trace w1 = trace w"
  shows "stepwise (network st act)"
  unfolding stepwise_def network_def
  by (auto simp: ran_until_def all_succeeded_def dest: assms split: if_splits sum.splits)

lemma stepwise_bcrypt_hash: "stepwise (bcrypt_hash hash p n)"
  unfolding stepwise_def bcrypt_hash_def
  by (auto simp: ran_until_def all_succeeded_def split: sum.splits)

lemma stepwise_succeed: "stepwise (succeed a)"
  unfolding stepwise_def succeed_def
  by (auto simp: ran_until_def all_succeeded_def)

lemma stepwise_and_then:
  assumes m: "stepwise m" and f: "\<And>a. stepwise (f a)"
  shows "stepwise (and_then m f)"
  unfolding stepwise_def
proof (intro allI impI)
  fix w r w'
  assume run: "and_then m f w = (r, w')"
  obtain r1 w1 where m1: "m w = (r1, w1)" by (cases "m w")
  from m m1 obtain ts1 where t1: "trace w1 = trace w @ ts1" "ran_until r1 ts1"
    unfolding stepwise_def by blast
  show "\<exists>ts. trace w' = trace w @ ts \<and> ran_until r ts"
  proof (cases r1)
    case (Inl e)
    with run m1 have "r = Inl e" "w' = w1" by (auto simp: and_then_def)
    with t1 Inl show ?thesis by (auto simp: ran_until_def)
  next
    case (Inr a)
    with run m1 have "f a w1 = (r, w')" by (simp add: and_then_def)
    with f obtain ts2 where t2: "trace w' = trace w1 @ ts2" "ran_until r ts2"
      unfolding stepwise_def by blast
    from t1 Inr have ok1: "all_succeeded ts1" by (simp add: ran_until_def)
    have "ran_until r (ts1 @ ts2)"
      using ok1 t2(2)
      by (cases r) (auto simp: ran_until_def all_succeeded_def butlast_append)
    with t1 t2 show ?thesis by auto
  qed
qed

lemma in_database_trace: "in_database sem w = Inr (a, w1) \<Longrightarrow> trace w1 = trace w"
  by (auto simp: in_database_def split: option.splits sum.splits)

lemma stepwise_connection_query:
  assumes "\<And>w a w1. act w = Inr (a, w1) \<Longrightarrow> trace w1 = trace w"
  shows "stepwise (connection_query stmt act)"
proof -
  have "connection_query stmt act =
        network (Query stmt)
          (\<lambda>w. case conn w of
               Open selected \<Rightarrow> act w
             | NotConnected \<Rightarrow> Inl ConnectionClosed
             | Closed \<Rightarrow> Inl ConnectionClosed)"
    by (rule ext) (simp add: connection_query_def)
  then show ?thesis
    by (auto intro!: stepwise_network dest: assms split: conn_state.splits)
qed

lemma stepwise_table_query: "stepwise (table_query stmt sem)"
proof -
  have "table_query stmt sem =
        connection_query stmt
          (\<lambda>w. if conn w = Open True then in_database sem w else Inl (Sql ER_NO_DB_ERROR))"
    by (rule ext) (simp add: table_query_def)
  then show ?thesis
    by (auto intro!: stepwise_connection_query dest: in_database_trace split: if_splits)
qed

lemma stepwise_create_database_query: "stepwise create_database_query"
proof -
  have eq: "create_database_query =
        connection_query CreateDatabase
          (\<lambda>w. case create_database (mysql w) of
               Inl e \<Rightarrow> Inl (Sql e)
             | Inr (u, s) \<Rightarrow> Inr (u, w\<lparr>mysql := s\<rparr>))"
    by (rule ext) (simp add: create_database_query_def)
  show ?thesis
    unfolding eq by (rule stepwise_connection_query) (auto split: sum.splits)
qed

lemma stepwise_use_database_query: "stepwise use_database_query"
proof -
  have eq: "use_database_query =
        connection_query UseDatabase
          (\<lambda>w. case db (mysql w) of
               None \<Rightarrow> Inl (Sql ER_BAD_DB_ERROR)
             | Some d \<Rightarrow> Inr ((), w\<lparr>conn := Open True\<rparr>))"
    by (rule ext) (simp add: use_database_query_def)
  show ?thesis
    unfolding eq by (rule stepwise_connection_query) (auto split: option.splits)
qed

lemma stepwise_eta: "stepwise (\<lambda>w. table_query stmt (sem w) w)"
  using stepwise_table_query unfolding stepwise_def by blast

lemma stepwise_seed_users: "stepwise (seed_users hash us)"
  by (induction us)
     (auto intro!: stepwise_succeed stepwise_and_then stepwise_bcrypt_hash stepwise_eta)

lemma stepwise_seed_posts: "stepwise (seed_posts ps)"
  by (induction ps) (auto intro!: stepwise_succeed stepwise_and_then stepwise_eta)

lemma stepwise_createTables_try: "stepwise (createTables_try hash)"
  unfolding createTables_try_def
  by (intro stepwise_and_then stepwise_create_database_query stepwise_use_database_query
      stepwise_table_query)
     (auto intro!: stepwise_seed_users stepwise_seed_posts stepwise_succeed)

text \<open>
  C8. A run of the bootstrap records its steps in order. If it ends with an error, that
  error is the outcome of the last step recorded and every step before it succeeded: no
  step is taken after the failing one, and the error is what the caller receives, so the
  process crashes at startup instead of listening. If it ends normally, every step
  succeeded. In both cases the connection the initializer opened is closed; the only run
  that leaves no closed connection is the one whose connection attempt itself failed.
\<close>

theorem C8_failure_aborts_and_closes:
  assumes run: "createTables hash w = (r, w')"
  shows "(\<exists>ts. trace w' = trace w @ ts \<and> ran_until r ts \<and>
            (conn w' = Closed \<or> (conn w' = conn w \<and> (\<exists>e. r = Inl e \<and> ts = [(Connect, Some e)]))))
       \<and> fst (server_start hash w) = (case r of Inl e \<Rightarrow> Crashed e | Inr u \<Rightarrow> Listening)"
proof -
  obtain r0 w0 where c: "createConnection w = (r0, w0)" by (cases "createConnection w")
  have start: "fst (server_start hash w) = (case r of Inl e \<Rightarrow> Crashed e | Inr u \<Rightarrow> Listening)"
    using run by (simp add: server_start_def split: sum.splits)
  show ?thesis
  proof (cases r0)
    case (Inl e)
    with c have "w0 = log_step Connect (Some e) w"
      by (auto simp: createConnection_def network_def split: if_splits)
    with c Inl run show ?thesis
      using start by (auto simp: createTables_def ran_until_def all_succeeded_def)
  next
    case (Inr u)
    with c have w0: "w0 = log_step Connect None (w\<lparr>conn := Open False\<rparr>)"
      by (auto simp: createConnection_def network_def split: if_splits)
    obtain w2 where t: "createTables_try hash w0 = (r, w2)" and w': "w' = connection_end w2"
      using run c Inr by (auto simp: createTables_def split: prod.splits)
    from stepwise_createTables_try t obtain ts where
      ts: "trace w2 = trace w0 @ ts" "ran_until r ts"
      unfolding stepwise_def by blast
    have "ran_until r ((Connect, None) # ts)"
      using ts(2) by (cases r) (auto simp: ran_until_def all_succeeded_def)
    with ts w0 w' show ?thesis
      using start by (auto simp: connection_end_def)
  qed
qed

theorem C8_failure_aborts_and_closes_witness:
  "fst (createTables toy_hash (fresh_server\<lparr>faults := [3]\<rparr>)) = Inl ConnectionLost
   \<and> trace (snd (createTables toy_hash (fresh_server\<lparr>faults := [3]\<rparr>)))
       = [(Connect, None), (Query CreateDatabase, None), (Query UseDatabase, None),
          (Query CreateUsersTable, Some ConnectionLost)]
   \<and> conn (snd (createTables toy_hash (fresh_server\<lparr>faults := [3]\<rparr>))) = Closed
   \<and> fst (server_start toy_hash (fresh_server\<lparr>faults := [3]\<rparr>)) = Crashed ConnectionLost"
proof -
  let ?w = "fresh_server\<lparr>faults := [3]\<rparr>"
  have r: "fst (createTables toy_hash ?w) = Inl ConnectionLost"
    by code_simp
  have t: "trace (snd (createTables toy_hash ?w))
       = [(Connect, None), (Query CreateDatabase, None), (Query UseDatabase, None),
          (Query CreateUsersTable, Some ConnectionLost)]"
    by code_simp
  have c: "conn ?w = NotConnected"
    by (simp add: fresh_server_def)
  have e: "trace ?w = []"
    by (simp add: fresh_server_def)
  have run: "createTables toy_hash ?w
             = (fst (createTables toy_hash ?w), snd (createTables toy_hash ?w))"
    by simp
  from C8_failure_aborts_and_closes [OF run] obtain ts where
    ts: "trace (snd (createTables toy_hash ?w)) = trace ?w @ ts"
    and closed: "conn (snd (createTables toy_hash ?w)) = Closed \<or>
         (\<exists>e. fst (createTables toy_hash ?w) = Inl e \<and> ts = [(Connect, Some e)])"
    and crash: "fst (server_start toy_hash ?w)
         = (case fst (createTables toy_hash ?w) of Inl e \<Rightarrow> Crashed e | Inr u \<Rightarrow> Listening)"
    by blast
  from ts t e have "ts \<noteq> [(Connect, Some ConnectionLost)]"
    by auto
  with closed r have "conn (snd (createTables toy_hash ?w)) = Closed"
    by auto
  with r t crash show ?thesis
    by simp
qed

section \<open>Bootstrap twice, and seeding one table\<close>

lemma table_query_ok:
  assumes "length (trace w) \<notin> set (faults w)" "conn w = Open True"
    "db (mysql w) = Some d" "sem d = Inr (a, d')"
  shows "table_query stmt sem w
           = (Inr a, log_step (Query stmt) None (w\<lparr>mysql := (mysql w)\<lparr>db := Some d'\<rparr>\<rparr>))"
  using assms
  by (simp add: table_query_def connection_query_def network_ok in_database_def)

lemma seed_posts_ok:
  "faults w = [] \<Longrightarrow> conn w = Open True \<Longrightarrow> db (mysql w) = Some d \<Longrightarrow>
   users d = Some ut \<Longrightarrow> posts d = Some pt \<Longrightarrow>
   \<forall>m \<in> set ps. m_user_id m \<in> set (map u_id (rows ut)) \<Longrightarrow>
   \<exists>w' d' pt' new. seed_posts ps w = (Inr (), w') \<and> db (mysql w') = Some d' \<and>
      users d' = users d \<and> posts d' = Some pt' \<and> rows pt' = rows pt @ new \<and>
      list_all2 seeded_post new ps"
proof (induction ps arbitrary: w d pt)
  case Nil
  then show ?case by (simp add: succeed_def)
next
  case (Cons post rest)
  let ?r = "\<lparr>p_id = auto_increment pt, p_title = m_title post, p_content = m_content post,
             p_user_id = m_user_id post, p_created_at = clock (mysql w)\<rparr>"
  let ?pt1 = "\<lparr>rows = rows pt @ [?r], auto_increment = auto_increment pt + 1\<rparr>"
  let ?d1 = "d\<lparr>posts := Some ?pt1\<rparr>"
  let ?w1 = "log_step (Query InsertPost) None (w\<lparr>mysql := (mysql w)\<lparr>db := Some ?d1\<rparr>\<rparr>)"
  have ins: "insert_post (clock (mysql w)) (m_title post) (m_content post) (m_user_id post) d
             = Inr (auto_increment pt, ?d1)"
    using Cons.prems by (simp add: insert_post_def)
  have q: "table_query InsertPost
             (insert_post (clock (mysql w)) (m_title post) (m_content post) (m_user_id post)) w
           = (Inr (auto_increment pt), ?w1)"
    using Cons.prems(1,2,3) ins by (intro table_query_ok) auto
  have "\<exists>w' d' pt' new. seed_posts rest ?w1 = (Inr (), w') \<and> db (mysql w') = Some d' \<and>
      users d' = users ?d1 \<and> posts d' = Some pt' \<and> rows pt' = rows ?pt1 @ new \<and>
      list_all2 seeded_post new rest"
    using Cons.prems by (intro Cons.IH) auto
  then obtain w' d' pt' new where
    r: "seed_posts rest ?w1 = (Inr (), w')" "db (mysql w') = Some d'"
      "users d' = users ?d1" "posts d' = Some pt'" "rows pt' = rows ?pt1 @ new"
      "list_all2 seeded_post new rest"
    by blast
  have "seed_posts (post # rest) w = (Inr (), w')"
    using q r(1) by (simp add: and_then_def)
  moreover have "rows pt' = rows pt @ (?r # new)"
    using r(5) by simp
  moreover have "list_all2 seeded_post (?r # new) (post # rest)"
    using r(6) by (simp add: seeded_post_def)
  moreover have "users d' = users d"
    using r(3) by simp
  ultimately show ?case
    using r(2,4) by blast
qed

lemma createTables_seeds_posts:
  assumes quiet: "faults v = []"
    and d: "db (mysql v) = Some d"
    and u: "users d = Some ut" "rows ut \<noteq> []"
    and p: "posts d = Some pt" "rows pt = []"
    and owners: "\<forall>m \<in> set mockPosts. m_user_id m \<in> set (map u_id (rows ut))"
  shows "\<exists>v' d' pt'. createTables hash v = (Inr (), v') \<and> conn v' = Closed \<and>
           db (mysql v') = Some d' \<and> users d' = users d \<and> posts d' = Some pt' \<and>
           list_all2 seeded_post (rows pt') mockPosts"
proof -
  define w0 where "w0 = log_step Connect None (v\<lparr>conn := Open False\<rparr>)"
  define w1 where "w1 = log_step (Query CreateDatabase) None w0"
  define w2 where "w2 = log_step (Query UseDatabase) None (w1\<lparr>conn := Open True\<rparr>)"
  define w3 where "w3 = log_step (Query CreateUsersTable) None w2"
  define w4 where "w4 = log_step (Query CreatePostsTable) None w3"
  define w5 where "w5 = log_step (Query CountUsers) None w4"
  define w7 where "w7 = log_step (Query CountPosts) None w5"
  note ws = w7_def w5_def w4_def w3_def w2_def w1_def w0_def
  have same: "(v\<lparr>conn := Open False\<rparr>)\<lparr>mysql := mysql v\<rparr> = v\<lparr>conn := Open False\<rparr>"
    by simp
  have c0: "createConnection v = (Inr (), w0)"
    using quiet by (simp add: createConnection_def network_def w0_def)
  have c1: "create_database_query w0 = (Inr (), w1)"
    using quiet d
    by (simp add: create_database_query_def connection_query_def network_def
        create_database_def w0_def w1_def same)
  have c2: "use_database_query w1 = (Inr (), w2)"
    using quiet d
    by (simp add: use_database_query_def connection_query_def network_def w0_def w1_def w2_def)
  have c3: "table_query CreateUsersTable create_users_table w2 = (Inr (), w3)"
    unfolding w3_def using quiet d u
    by (intro table_query_same [where d = d]) (simp_all add: ws create_users_table_def)
  have c4: "table_query CreatePostsTable create_posts_table w3 = (Inr (), w4)"
    unfolding w4_def using quiet d p
    by (intro table_query_same [where d = d]) (simp_all add: ws create_posts_table_def)
  have c5: "table_query CountUsers count_users w4 = (Inr (length (rows ut)), w5)"
    unfolding w5_def using quiet d u
    by (intro table_query_same [where d = d]) (simp_all add: ws count_users_def)
  have c7: "table_query CountPosts count_posts w5 = (Inr 0, w7)"
    unfolding w7_def using quiet d p
    by (intro table_query_same [where d = d]) (simp_all add: ws count_posts_def)
  have body: "createTables_try hash w0 = seed_posts mockPosts w7"
    using u(2) by (simp add: createTables_try_def and_then_def c1 c2 c3 c4 c5 c7 succeed_def)
  have "faults w7 = []" "conn w7 = Open True" "db (mysql w7) = Some d"
    using quiet d by (simp_all add: ws)
  from seed_posts_ok [OF this u(1) p(1) owners] obtain v2 d' pt' new where
    r: "seed_posts mockPosts w7 = (Inr (), v2)" "db (mysql v2) = Some d'" "users d' = users d"
       "posts d' = Some pt'" "rows pt' = rows pt @ new" "list_all2 seeded_post new mockPosts"
    by blast
  have "createTables hash v = (Inr (), connection_end v2)"
    by (simp add: createTables_def c0 body r(1))
  moreover have "list_all2 seeded_post (rows pt') mockPosts"
    using r(5,6) p(2) by simp
  ultimately show ?thesis
    using r(2,3,4) by (auto simp: connection_end_def)
qed

lemma createTables_Inr:
  assumes run: "createTables hash w = (Inr u, w')"
  shows "\<exists>d ut pt. db (mysql w') = Some d \<and> users d = Some ut \<and> posts d = Some pt \<and>
           rows ut \<noteq> [] \<and> rows pt \<noteq> []"
proof -
  from run obtain w0 w2 where
    "createTables_try hash w0 = (Inr u, w2)" "w' = connection_end w2"
    by (auto simp: createTables_def split: prod.splits sum.splits)
  with createTables_try_Inr [of hash w0 u w2] show ?thesis
    by (auto simp: connection_end_def)
qed

text \<open>
  C7 (as amended). A second bootstrap run against the store a successful run has left
  succeeds without changing the server: no seed row is added again and the schema stays as
  it is. Account seeding and post seeding are gated each on its own table: on a store
  with accounts and an empty post table, whose accounts include every owner the seed posts
  name (ids 1 and 2), the run leaves the account table untouched and inserts exactly the
  seed posts, in order.
\<close>

theorem C7_bootstrap_idempotent_and_gated:
  "(createTables hash w = (Inr (), w1) \<and> mysql w2 = mysql w1 \<and> faults w2 = [] \<longrightarrow>
      (\<exists>w3. createTables hash2 w2 = (Inr (), w3) \<and> mysql w3 = mysql w1))
   \<and> (faults v = [] \<and> db (mysql v) = Some d \<and> users d = Some ut \<and> rows ut \<noteq> [] \<and>
      posts d = Some pt \<and> rows pt = [] \<and>
      (\<forall>m \<in> set mockPosts. m_user_id m \<in> set (map u_id (rows ut))) \<longrightarrow>
      (\<exists>v' d' pt'. createTables hash v = (Inr (), v') \<and> db (mysql v') = Some d' \<and>
         users d' = users d \<and> posts d' = Some pt' \<and>
         list_all2 seeded_post (rows pt') mockPosts))"
proof (intro conjI impI)
  assume a: "createTables hash w = (Inr (), w1) \<and> mysql w2 = mysql w1 \<and> faults w2 = []"
  with createTables_Inr [of hash w "()" w1] obtain d ut pt where
    "db (mysql w2) = Some d" "users d = Some ut" "posts d = Some pt"
    "rows ut \<noteq> []" "rows pt \<noteq> []"
    by auto
  with a settled [of w2 d ut pt hash2] show
    "\<exists>w3. createTables hash2 w2 = (Inr (), w3) \<and> mysql w3 = mysql w1"
    by auto
next
  assume "faults v = [] \<and> db (mysql v) = Some d \<and> users d = Some ut \<and> rows ut \<noteq> [] \<and>
      posts d = Some pt \<and> rows pt = [] \<and>
      (\<forall>m \<in> set mockPosts. m_user_id m \<in> set (map u_id (rows ut)))"
  then show "\<exists>v' d' pt'. createTables hash v = (Inr (), v') \<and> db (mysql v') = Some d' \<and>
         users d' = users d \<and> posts d' = Some pt' \<and>
         list_all2 seeded_post (rows pt') mockPosts"
    using createTables_seeds_posts [of v d ut pt hash] by blast
qed

theorem C7_bootstrap_idempotent_and_gated_witness:
  "fst (createTables toy_hash fresh_server) = Inr ()
   \<and> (\<exists>w3. createTables toy_hash (snd (createTables toy_hash fresh_server)) = (Inr (), w3)
          \<and> mysql w3 = mysql (snd (createTables toy_hash fresh_server)))
   \<and> length (user_rows (snd (createTables toy_hash (snd (createTables toy_hash fresh_server))))) = 2
   \<and> length (post_rows (snd (createTables toy_hash (snd (createTables toy_hash fresh_server))))) = 5
   \<and> (\<exists>v' d' pt'. createTables toy_hash sample_store = (Inr (), v') \<and> db (mysql v') = Some d'
          \<and> users d' = users sample_db \<and> posts d' = Some pt'
          \<and> list_all2 seeded_post (rows pt') mockPosts)"
proof -
  let ?w1 = "snd (createTables toy_hash fresh_server)"
  have ok: "fst (createTables toy_hash fresh_server) = Inr ()"
    by code_simp
  then have first: "createTables toy_hash fresh_server = (Inr (), ?w1)"
    by (simp add: prod_eq_iff)
  have quiet: "faults ?w1 = []"
    by code_simp
  have counts:
    "length (user_rows (snd (createTables toy_hash ?w1))) = 2"
    "length (post_rows (snd (createTables toy_hash ?w1))) = 5"
    by code_simp+
  have some: "rows sample_users \<noteq> []" "rows sample_posts = []"
    by (simp_all add: sample_users_def sample_posts_def)
  have owners: "\<forall>m \<in> set mockPosts. m_user_id m \<in> set (map u_id (rows sample_users))"
    by (simp add: mockPosts_def sample_users_def john_row_def jane_row_def)
  from C7_bootstrap_idempotent_and_gated
         [where hash = toy_hash and w = fresh_server and ?w1.0 = ?w1 and ?w2.0 = ?w1
            and ?hash2.0 = toy_hash and v = sample_store and d = sample_db
            and ut = sample_users and pt = sample_posts]
       first quiet sample_facts some owners ok counts
  show ?thesis
    by simp
qed

text \<open>
  The unamended second half of C7 fails: a store with an account but none with id 1 and an
  empty post table gets no post seeded; the first insert violates the foreign key and the
  run ends with that error.
\<close>

theorem C7_counterexample:
  "user_rows lonely_store \<noteq> [] \<and> post_rows lonely_store = [] \<and> faults lonely_store = []
   \<and> fst (createTables toy_hash lonely_store) = Inl (Sql ER_NO_REFERENCED_ROW)
   \<and> post_rows (snd (createTables toy_hash lonely_store)) = []"
  by code_simp

section \<open>Rows the bootstrap adds to the accounts\<close>

lemma user_rows_log_step [simp]: "user_rows (log_step st out w) = user_rows w"
  by (simp add: user_rows_def)

lemma keeps_users_network:
  assumes "\<And>w a w1. act w = Inr (a, w1) \<Longrightarrow> user_rows w1 = user_rows w"
  shows "keeps_users (network st act)"
  unfolding keeps_users_def network_def
  by (auto dest: assms split: if_splits sum.splits)

lemma keeps_users_connection_query:
  assumes "\<And>w a w1. act w = Inr (a, w1) \<Longrightarrow> user_rows w1 = user_rows w"
  shows "keeps_users (connection_query stmt act)"
proof -
  have eq: "connection_query stmt act =
        network (Query stmt)
          (\<lambda>w. case conn w of
               Open selected \<Rightarrow> act w
             | NotConnected \<Rightarrow> Inl ConnectionClosed
             | Closed \<Rightarrow> Inl ConnectionClosed)"
    by (rule ext) (simp add: connection_query_def)
  show ?thesis
    unfolding eq by (rule keeps_users_network) (auto dest: assms split: conn_state.splits)
qed

lemma keeps_users_table_query:
  assumes "\<And>d a d'. sem d = Inr (a, d') \<Longrightarrow>
             (case users d' of None \<Rightarrow> [] | Some t \<Rightarrow> rows t)
               = (case users d of None \<Rightarrow> [] | Some t \<Rightarrow> rows t)"
  shows "keeps_users (table_query stmt sem)"
proof -
  have eq: "table_query stmt sem =
        connection_query stmt
          (\<lambda>w. if conn w = Open True then in_database sem w else Inl (Sql ER_NO_DB_ERROR))"
    by (rule ext) (simp add: table_query_def)
  show ?thesis
    unfolding eq
    by (rule keeps_users_connection_query)
       (auto dest!: in_database_Inr assms simp: user_rows_def split: if_splits)
qed

lemma keeps_users_create_database_query: "keeps_users create_database_query"
  unfolding keeps_users_def
proof (intro allI impI)
  fix w r w'
  assume "create_database_query w = (r, w')"
  then show "user_rows w' = user_rows w"
    by (auto simp: create_database_query_def connection_query_def network_def
        create_database_def user_rows_def
        split: if_splits conn_state.splits option.splits)
qed

lemma keeps_users_use_database_query: "keeps_users use_database_query"
  unfolding keeps_users_def
proof (intro allI impI)
  fix w r w'
  assume "use_database_query w = (r, w')"
  then show "user_rows w' = user_rows w"
    by (auto simp: use_database_query_def connection_query_def network_def user_rows_def
        split: if_splits conn_state.splits option.splits)
qed

lemma keeps_users_succeed: "keeps_users (succeed a)"
  by (simp add: keeps_users_def succeed_def)

lemma keeps_users_and_then:
  assumes "keeps_users m" "\<And>a. keeps_users (f a)"
  shows "keeps_users (and_then m f)"
  using assms unfolding keeps_users_def and_then_def
  by (fastforce split: prod.splits sum.splits)

lemma keeps_users_eta:
  assumes "\<And>now d a d'. sem now d = Inr (a, d') \<Longrightarrow>
             (case users d' of None \<Rightarrow> [] | Some t \<Rightarrow> rows t)
               = (case users d of None \<Rightarrow> [] | Some t \<Rightarrow> rows t)"
  shows "keeps_users (\<lambda>w. table_query stmt (sem (clock (mysql w))) w)"
  using keeps_users_table_query [of "sem now" for now] assms
  unfolding keeps_users_def by blast

lemma insert_post_users: "insert_post now t c uid d = Inr (a, d') \<Longrightarrow> users d' = users d"
  by (auto dest: insert_post_Inr)

lemma keeps_users_seed_posts: "keeps_users (seed_posts ps)"
proof (induction ps)
  case Nil
  show ?case by (simp add: keeps_users_succeed)
next
  case (Cons post rest)
  have "keeps_users (\<lambda>w. table_query InsertPost
          (insert_post (clock (mysql w)) (m_title post) (m_content post) (m_user_id post)) w)"
    using keeps_users_eta
      [where sem = "\<lambda>now. insert_post now (m_title post) (m_content post) (m_user_id post)"]
    by (simp add: insert_post_users)
  with Cons show ?case
    by (simp add: keeps_users_and_then)
qed

lemma keeps_adds:
  "keeps_users m \<Longrightarrow> adds_seeds hash us m"
  unfolding keeps_users_def adds_seeds_def by fastforce

lemma keeps_then_adds:
  assumes "keeps_users m" "\<And>a. adds_seeds hash us (f a)"
  shows "adds_seeds hash us (and_then m f)"
  unfolding adds_seeds_def
proof (intro allI impI)
  fix w r w'
  assume run: "and_then m f w = (r, w')"
  obtain r1 w1 where m1: "m w = (r1, w1)" by (cases "m w")
  with assms(1) have k: "user_rows w1 = user_rows w"
    unfolding keeps_users_def by blast
  show "\<exists>new. user_rows w' = user_rows w @ new \<and>
              list_all2 (seeded hash) new (take (length new) us)"
  proof (cases r1)
    case (Inl e)
    with run m1 have "w' = w1" by (simp add: and_then_def)
    with k show ?thesis by simp
  next
    case (Inr a)
    with run m1 have "f a w1 = (r, w')" by (simp add: and_then_def)
    with assms(2) k show ?thesis
      unfolding adds_seeds_def by metis
  qed
qed

lemma adds_then_keeps:
  assumes "adds_seeds hash us m" "\<And>a. keeps_users (f a)"
  shows "adds_seeds hash us (and_then m f)"
  unfolding adds_seeds_def
proof (intro allI impI)
  fix w r w'
  assume run: "and_then m f w = (r, w')"
  obtain r1 w1 where m1: "m w = (r1, w1)" by (cases "m w")
  with assms(1) obtain new where
    k: "user_rows w1 = user_rows w @ new" "list_all2 (seeded hash) new (take (length new) us)"
    unfolding adds_seeds_def by blast
  show "\<exists>new. user_rows w' = user_rows w @ new \<and>
              list_all2 (seeded hash) new (take (length new) us)"
  proof (cases r1)
    case (Inl e)
    with run m1 have "w' = w1" by (simp add: and_then_def)
    with k show ?thesis by blast
  next
    case (Inr a)
    with run m1 have "f a w1 = (r, w')" by (simp add: and_then_def)
    with assms(2) have "user_rows w' = user_rows w1"
      unfolding keeps_users_def by blast
    with k show ?thesis by auto
  qed
qed

lemma network_Inl:
  "network st act w = (Inl e, w') \<Longrightarrow> w' = log_step st (Some e) w"
  by (auto simp: network_def split: if_splits sum.splits)

lemma table_query_Inl:
  "table_query stmt sem w = (Inl e, w') \<Longrightarrow> user_rows w' = user_rows w"
  unfolding table_query_def connection_query_def
  by (auto dest!: network_Inl)

lemma bcrypt_hash_users:
  "bcrypt_hash hash p n w = (r, w') \<Longrightarrow> user_rows w' = user_rows w"
  by (auto simp: bcrypt_hash_def user_rows_def split: sum.splits)

lemma table_query_insert_user:
  assumes "table_query InsertUser (insert_user now username email h) w = (Inr i, w')"
  shows "\<exists>r. user_rows w' = user_rows w @ [r] \<and> u_username r = username \<and>
             u_email r = email \<and> u_password r = h \<and> u_id r = i"
proof -
  from table_query_Inr [OF assms] obtain d d' where
    d: "db (mysql w) = Some d" "insert_user now username email h d = Inr (i, d')"
       "db (mysql w') = Some d'"
    by blast
  from insert_user_Inr [OF d(2)] d(1,3) show ?thesis
    by (auto simp: user_rows_def)
qed

lemma adds_seeds_seed_users: "adds_seeds hash us (seed_users hash us)"
proof (induction us)
  case Nil
  show ?case by (simp add: adds_seeds_def succeed_def)
next
  case (Cons user rest)
  show ?case
    unfolding adds_seeds_def
  proof (intro allI impI)
    fix w r w'
    assume run: "seed_users hash (user # rest) w = (r, w')"
    obtain r1 w1 where h: "bcrypt_hash hash (m_password user) 10 w = (r1, w1)"
      by (cases "bcrypt_hash hash (m_password user) 10 w")
    note k1 = bcrypt_hash_users [OF h]
    show "\<exists>new. user_rows w' = user_rows w @ new \<and>
                list_all2 (seeded hash) new (take (length new) (user # rest))"
    proof (cases r1)
      case (Inl e)
      with run h have "w' = w1" by (simp add: and_then_def)
      with k1 show ?thesis by simp
    next
      case (Inr hashed)
      with h have hh: "hash (draws w) (m_password user) 10 = Inr hashed"
        by (auto dest: bcrypt_hash_Inr)
      obtain r2 w2 where
        ins: "table_query InsertUser
                (insert_user (clock (mysql w1)) (m_username user) (m_email user) hashed) w1
              = (r2, w2)"
        by (cases "table_query InsertUser
                (insert_user (clock (mysql w1)) (m_username user) (m_email user) hashed) w1")
      show ?thesis
      proof (cases r2)
        case (Inl e)
        with run h Inr ins have "w' = w2" by (simp add: and_then_def)
        with table_query_Inl ins Inl k1 show ?thesis by fastforce
      next
        case i: (Inr i)
        with run h Inr ins have rest: "seed_users hash rest w2 = (r, w')"
          by (simp add: and_then_def)
        from table_query_insert_user ins i obtain row where
          row: "user_rows w2 = user_rows w1 @ [row]" "u_username row = m_username user"
               "u_email row = m_email user" "u_password row = hashed"
          by blast
        from Cons rest obtain new where
          new: "user_rows w' = user_rows w2 @ new"
               "list_all2 (seeded hash) new (take (length new) rest)"
          unfolding adds_seeds_def by blast
        have "seeded hash row user"
          using row hh by (auto simp: seeded_def)
        with new row k1 have
          "user_rows w' = user_rows w @ (row # new) \<and>
           list_all2 (seeded hash) (row # new) (take (length (row # new)) (user # rest))"
          by simp
        then show ?thesis by blast
      qed
    qed
  qed
qed

lemma adds_seeds_createTables_try: "adds_seeds hash mockUsers (createTables_try hash)"
proof -
  have tail: "keeps_users (and_then (table_query CountPosts count_posts)
                 (\<lambda>count. if count = 0 then seed_posts mockPosts else succeed ()))"
    by (intro keeps_users_and_then keeps_users_table_query)
       (auto simp: count_posts_def keeps_users_seed_posts keeps_users_succeed
             split: option.splits)
  have seed: "adds_seeds hash mockUsers
                (if count = 0 then seed_users hash mockUsers else succeed ())" for count :: nat
    by (simp add: adds_seeds_seed_users keeps_adds keeps_users_succeed)
  show ?thesis
    unfolding createTables_try_def
    apply (rule keeps_then_adds [OF keeps_users_create_database_query])
    apply (rule keeps_then_adds [OF keeps_users_use_database_query])
    apply (rule keeps_then_adds)
     apply (rule keeps_users_table_query)
     apply (auto simp: create_users_table_def empty_table_def split: option.splits)[1]
    apply (rule keeps_then_adds)
     apply (rule keeps_users_table_query)
     apply (auto simp: create_posts_table_def split: option.splits)[1]
    apply (rule keeps_then_adds)
     apply (rule keeps_users_table_query)
     apply (auto simp: count_users_def split: option.splits)[1]
    apply (rule adds_then_keeps)
     apply (rule seed)
    apply (rule tail)
    done
qed

lemma createTables_adds_seeds:
  "\<exists>new. user_rows (snd (createTables hash w)) = user_rows w @ new \<and>
         list_all2 (seeded hash) new (take (length new) mockUsers)"
proof -
  obtain r0 w0 where c: "createConnection w = (r0, w0)" by (cases "createConnection w")
  then have k0: "user_rows w0 = user_rows w"
    by (auto simp: createConnection_def network_def user_rows_def split: if_splits)
  show ?thesis
  proof (cases r0)
    case (Inl e)
    with c k0 show ?thesis by (simp add: createTables_def)
  next
    case (Inr u)
    obtain r w2 where t: "createTables_try hash w0 = (r, w2)"
      by (cases "createTables_try hash w0")
    with adds_seeds_createTables_try obtain new where
      "user_rows w2 = user_rows w0 @ new" "list_all2 (seeded hash) new (take (length new) mockUsers)"
      unfolding adds_seeds_def by blast
    with c Inr t k0 show ?thesis
      by (auto simp: createTables_def connection_end_def user_rows_def)
  qed
qed

section \<open>Stored passwords\<close>

lemma pool_query_Inr:
  assumes "pool_query stmt sem w = (Inr a, w')"
  shows "\<exists>d d'. db (mysql w) = Some d \<and> sem d = Inr (a, d') \<and> db (mysql w') = Some d'"
proof -
  from assms obtain w1 where "in_database sem w = Inr (a, w1)" "w' = log_step (Query stmt) None w1"
    unfolding pool_query_def by (blast dest: network_Inr)
  with in_database_Inr [of sem w a w1] show ?thesis
    by auto
qed

lemma register_created:
  assumes "status (fst (register hash b w)) = 201"
  shows "\<exists>r. user_rows (snd (register hash b w)) = user_rows w @ [r] \<and>
             u_username r = r_username b \<and> u_email r = r_email b \<and>
             hash (draws w) (r_password b) 10 = Inr (u_password r)"
proof -
  obtain r1 w1 where h: "bcrypt_hash hash (r_password b) 10 w = (r1, w1)"
    by (cases "bcrypt_hash hash (r_password b) 10 w")
  from assms h obtain hashed where r1: "r1 = Inr hashed"
    by (cases r1) (auto simp: register_def respond_def)
  with h have hh: "hash (draws w) (r_password b) 10 = Inr hashed" and m1: "mysql w1 = mysql w"
    by (auto dest: bcrypt_hash_Inr)
  obtain r2 w2 where
    q: "pool_query InsertUser
          (insert_user (clock (mysql w1)) (r_username b) (r_email b) hashed) w1 = (r2, w2)"
    by (cases "pool_query InsertUser
          (insert_user (clock (mysql w1)) (r_username b) (r_email b) hashed) w1")
  from assms h r1 q obtain i where r2: "r2 = Inr i"
    by (cases r2) (auto simp: register_def respond_def)
  from q r2 have "pool_query InsertUser
          (insert_user (clock (mysql w1)) (r_username b) (r_email b) hashed) w1 = (Inr i, w2)"
    by simp
  from pool_query_Inr [OF this] obtain d d' where
    d: "db (mysql w1) = Some d"
       "insert_user (clock (mysql w1)) (r_username b) (r_email b) hashed d = Inr (i, d')"
       "db (mysql w2) = Some d'"
    by blast
  from insert_user_Inr [OF d(2)] d(1,3) m1 obtain row where
    "user_rows w2 = user_rows w @ [row]" "u_username row = r_username b"
    "u_email row = r_email b" "u_password row = hashed"
    by (auto simp: user_rows_def)
  moreover have "snd (register hash b w) = w2"
    using h r1 q r2 by (simp add: register_def)
  ultimately show ?thesis
    using hh by auto
qed

text \<open>
  C6. A registration answered with 201 has added one account row whose password column
  is what hashing the submitted plaintext returned; and every row a bootstrap run adds to
  the accounts, whether the run ends well or not, is a seed account whose password column
  is what hashing the seed's plaintext returned. With a hasher that meets its contract the
  stored value differs from the plaintext and comparing the plaintext against it returns
  true.
\<close>

theorem C6_stored_password_is_hash:
  assumes sound: "hasher_sound hash compare"
  shows "(status (fst (register hash b w)) = 201 \<longrightarrow>
           (\<exists>r. user_rows (snd (register hash b w)) = user_rows w @ [r] \<and>
                u_username r = r_username b \<and> u_email r = r_email b \<and>
                hash (draws w) (r_password b) 10 = Inr (u_password r) \<and>
                u_password r \<noteq> r_password b \<and>
                compare (r_password b) (u_password r) = Inr True))
       \<and> (\<exists>new. user_rows (snd (createTables hash v)) = user_rows v @ new \<and>
             list_all2 (\<lambda>r m. seeded hash r m \<and> u_password r \<noteq> m_password m \<and>
                               compare (m_password m) (u_password r) = Inr True)
               new (take (length new) mockUsers))"
proof (intro conjI impI)
  assume "status (fst (register hash b w)) = 201"
  from register_created [OF this] obtain r where
    r: "user_rows (snd (register hash b w)) = user_rows w @ [r]"
       "u_username r = r_username b" "u_email r = r_email b"
       "hash (draws w) (r_password b) 10 = Inr (u_password r)"
    by blast
  with sound have "u_password r \<noteq> r_password b \<and> compare (r_password b) (u_password r) = Inr True"
    unfolding hasher_sound_def by blast
  with r show "\<exists>r. user_rows (snd (register hash b w)) = user_rows w @ [r] \<and>
                u_username r = r_username b \<and> u_email r = r_email b \<and>
                hash (draws w) (r_password b) 10 = Inr (u_password r) \<and>
                u_password r \<noteq> r_password b \<and>
                compare (r_password b) (u_password r) = Inr True"
    by blast
next
  from createTables_adds_seeds [of hash v] obtain new where
    new: "user_rows (snd (createTables hash v)) = user_rows v @ new"
         "list_all2 (seeded hash) new (take (length new) mockUsers)"
    by blast
  have "seeded hash r m \<Longrightarrow>
        u_password r \<noteq> m_password m \<and> compare (m_password m) (u_password r) = Inr True" for r m
    using sound unfolding hasher_sound_def seeded_def by blast
  with new(2) have
    "list_all2 (\<lambda>r m. seeded hash r m \<and> u_password r \<noteq> m_password m \<and>
                               compare (m_password m) (u_password r) = Inr True)
               new (take (length new) mockUsers)"
    by (auto elim!: list_all2_mono)
  with new(1) show "\<exists>new. user_rows (snd (createTables hash v)) = user_rows v @ new \<and>
             list_all2 (\<lambda>r m. seeded hash r m \<and> u_password r \<noteq> m_password m \<and>
                               compare (m_password m) (u_password r) = Inr True)
               new (take (length new) mockUsers)"
    by blast
qed

theorem C6_stored_password_is_hash_witness:
  "hasher_sound toy_hash toy_compare
   \<and> status (fst (register toy_hash
        \<lparr>r_username = ''a'', r_email = ''a@x.com'', r_password = ''p1''\<rparr> sample_store)) = 201
   \<and> (\<exists>r. user_rows (snd (register toy_hash
               \<lparr>r_username = ''a'', r_email = ''a@x.com'', r_password = ''p1''\<rparr> sample_store))
              = user_rows sample_store @ [r]
            \<and> u_password r \<noteq> ''p1'' \<and> toy_compare ''p1'' (u_password r) = Inr True)
   \<and> (\<exists>new. user_rows (snd (createTables toy_hash fresh_server))
              = user_rows fresh_server @ new
            \<and> list_all2 (\<lambda>r m. seeded toy_hash r m \<and> u_password r \<noteq> m_password m \<and>
                                  toy_compare (m_password m) (u_password r) = Inr True)
                 new (take (length new) mockUsers))
   \<and> map u_password (user_rows (snd (createTables toy_hash fresh_server)))
       = [''$2b$password123'', ''$2b$password456'']"
proof -
  let ?b = "\<lparr>r_username = ''a'', r_email = ''a@x.com'', r_password = ''p1''\<rparr>"
  have sound: "hasher_sound toy_hash toy_compare"
    by (auto simp: hasher_sound_def toy_hash_def toy_compare_def)
  have created: "status (fst (register toy_hash ?b sample_store)) = 201"
    by code_simp
  have stored: "map u_password (user_rows (snd (createTables toy_hash fresh_server)))
       = [''$2b$password123'', ''$2b$password456'']"
    by code_simp
  from C6_stored_password_is_hash [OF sound, of ?b sample_store fresh_server] created stored sound
  show ?thesis
    by auto
qed

section \<open>Login, profile and tokens\<close>

lemma select_profile_none:
  assumes "users d = Some ut" "\<forall>r \<in> set (rows ut). u_id r \<noteq> uid"
  shows "select_profile uid d = Inr ([], d)"
proof -
  have "filter (\<lambda>r. u_id r = uid) (rows ut) = []"
    using assms(2) by (auto simp: filter_empty_conv)
  then show ?thesis
    using assms(1) by (simp add: select_profile_def)
qed

text \<open>
  C10. GET /accounts/profile with a token that verifies, for an account id that no stored
  account has: the query returns no row, the first element of the empty result is
  \<^verbatim>\<open>undefined\<close>, and the handler answers 200 with that as body.
\<close>

theorem C10_profile_of_missing_account:
  assumes auth: "authMiddleware verify secret now authorization = Next user"
    and up: "length (trace w) \<notin> set (faults w)"
    and store: "db (mysql w) = Some d" "users d = Some ut"
    and gone: "\<forall>r \<in> set (rows ut). u_id r \<noteq> c_id user"
  shows "profile verify secret now authorization w
           = (respond 200 Undefined, log_step (Query SelectProfile) None w)"
proof -
  have "pool_query SelectProfile (select_profile (c_id user)) w
          = (Inr [], log_step (Query SelectProfile) None w)"
    using up store(1) select_profile_none [OF store(2) gone]
    by (rule pool_query_same)
  then show ?thesis
    using auth by (simp add: profile_def profile_handler_def index_def)
qed

theorem C10_profile_of_missing_account_witness:
  "profile ghost_token ''k'' 10 (Some ''Bearer ghost'') sample_store
     = (respond 200 Undefined, log_step (Query SelectProfile) None sample_store)"
proof -
  let ?user = "\<lparr>c_id = 9, c_email = ''ghost@example.com'', iat = 0, exp = 86400\<rparr>"
  have auth: "authMiddleware ghost_token ''k'' 10 (Some ''Bearer ghost'') = Next ?user"
    by (simp add: authMiddleware_def extract_token_def index_def ghost_token_def)
  have gone: "\<forall>r \<in> set (rows sample_users). u_id r \<noteq> c_id ?user"
    by (simp add: sample_users_def john_row_def jane_row_def dave_row_def)
  show ?thesis
    by (rule C10_profile_of_missing_account [OF auth sample_facts(1,2,3) gone])
qed

lemma find_filter:
  "find P xs = Some x \<Longrightarrow> \<exists>rest. filter P xs = x # rest"
  by (induction xs) (auto split: if_splits)

lemma select_user_by_email_rows:
  assumes "users d = Some ut"
  shows "select_user_by_email email d = Inr (filter (\<lambda>r. u_email r = email) (rows ut), d)"
  using assms by (simp add: select_user_by_email_def)

lemma login_lookup:
  assumes "length (trace w) \<notin> set (faults w)" "db (mysql w) = Some d" "users d = Some ut"
  shows "pool_query SelectUserByEmail (select_user_by_email email) w
           = (Inr (filter (\<lambda>r. u_email r = email) (rows ut)),
              log_step (Query SelectUserByEmail) None w)"
  using assms(1,2) select_user_by_email_rows [OF assms(3)]
  by (rule pool_query_same)


lemma login_matched:
  assumes "length (trace w) \<notin> set (faults w)" "db (mysql w) = Some d" "users d = Some ut"
    and "find (\<lambda>r. u_email r = l_email b) (rows ut) = Some user"
  shows "login sign compare secret now b w
           = (case compare (l_password b) (u_password user) of
                Inl m \<Rightarrow> (respond 500 (error_body m), log_step (Query SelectUserByEmail) None w)
              | Inr validPassword \<Rightarrow>
                  if \<not> validPassword
                  then (respond 401 (error_body ''Invalid credentials''),
                        log_step (Query SelectUserByEmail) None w)
                  else (case sign \<lparr>c_id = u_id user, c_email = u_email user\<rparr>
                               secret expiresIn now of
                          Inl m \<Rightarrow> (respond 500 (error_body m),
                                    log_step (Query SelectUserByEmail) None w)
                        | Inr token \<Rightarrow>
                            (respond 200
                               (Obj [(''token'', Str token),
                                     (''user'', public_profile (u_id user) (u_username user)
                                                  (u_email user))]),
                             log_step (Query SelectUserByEmail) None w)))"
proof -
  from find_filter [OF assms(4)] obtain rest where
    "filter (\<lambda>r. u_email r = l_email b) (rows ut) = user # rest"
    by blast
  then show ?thesis
    by (simp add: login_def login_lookup [OF assms(1-3)])
qed




text \<open>
  C9. When the stored password of the matched account is not well formed, a comparison
  that fails closed makes the login answer 401 "Invalid credentials". And in the handler
  itself nothing but a comparison that returns true leads to the 200 answer with a token:
  a comparison that throws is answered with an error status.
\<close>

theorem C9_malformed_hash_fails_closed:
  assumes up: "length (trace w) \<notin> set (faults w)"
    and store: "db (mysql w) = Some d" "users d = Some ut"
    and found: "find (\<lambda>r. u_email r = l_email b) (rows ut) = Some user"
  shows "(fails_closed well_formed compare \<and> \<not> well_formed (u_password user) \<longrightarrow>
            fst (login sign compare secret now b w)
              = respond 401 (error_body ''Invalid credentials''))
       \<and> (status (fst (login sign compare secret now b w)) = 200 \<longrightarrow>
            compare (l_password b) (u_password user) = Inr True)"
  using login_matched [OF up store found, of sign compare secret now]
  by (auto simp: fails_closed_def respond_def split: sum.splits if_splits)

theorem C9_malformed_hash_fails_closed_witness:
  "fails_closed well_formed_hash toy_compare \<and> \<not> well_formed_hash (u_password dave_row)
   \<and> fst (login (token_issue toy_scheme) toy_compare ''s3cret'' 1000
          \<lparr>l_email = ''dave@example.com'', l_password = ''hunter2''\<rparr> sample_store)
     = respond 401 (error_body ''Invalid credentials'')
   \<and> status (fst (login (token_issue toy_scheme) toy_compare ''s3cret'' 1000
          \<lparr>l_email = ''john@example.com'', l_password = ''password123''\<rparr> sample_store)) = 200
   \<and> toy_compare ''password123'' (u_password john_row) = Inr True"
proof -
  let ?john = "\<lparr>l_email = ''john@example.com'', l_password = ''password123''\<rparr>"
  have john: "find (\<lambda>r. u_email r = l_email ?john) (rows sample_users) = Some john_row"
    by (simp add: sample_users_def john_row_def)
  have match: "toy_compare ''password123'' (u_password john_row) = Inr True"
    by (simp add: toy_compare_def john_row_def)
  have ok: "status (fst (login (token_issue toy_scheme) toy_compare ''s3cret'' 1000 ?john
                      sample_store)) = 200"
    by (simp add: login_matched [OF sample_facts(1,2,3) john] match token_issue_def respond_def)
  let ?dave = "\<lparr>l_email = ''dave@example.com'', l_password = ''hunter2''\<rparr>"
  have closed: "fails_closed well_formed_hash toy_compare"
    by (auto simp: fails_closed_def well_formed_hash_def toy_compare_def)
  have odd: "\<not> well_formed_hash (u_password dave_row)"
    by (simp add: well_formed_hash_def dave_row_def)
  have found: "find (\<lambda>r. u_email r = l_email ?dave) (rows sample_users) = Some dave_row"
    by (simp add: sample_users_def john_row_def jane_row_def dave_row_def)
  from C9_malformed_hash_fails_closed [OF sample_facts(1,2,3) found,
         of well_formed_hash toy_compare "token_issue toy_scheme" "''s3cret''" 1000]
       C9_malformed_hash_fails_closed [OF sample_facts(1,2,3) john,
         of well_formed_hash toy_compare "token_issue toy_scheme" "''s3cret''" 1000]
       closed odd ok match
  show ?thesis
    by simp
qed

text \<open>
  C4. A login with the email of a stored account and a password that compares equal is
  answered with 200 and a token; the token decodes to a payload with exactly that
  account's id and email, issued now and expiring at now plus 24 hours (in seconds), and
  it verifies until then.
\<close>

theorem C4_login_token_claims:
  assumes up: "length (trace w) \<notin> set (faults w)"
    and store: "db (mysql w) = Some d" "users d = Some ut"
    and found: "find (\<lambda>r. u_email r = l_email b) (rows ut) = Some user"
    and match: "compare (l_password b) (u_password user) = Inr True"
    and wire: "decode sch (encode sch (signed sch secret
                 \<lparr>c_id = u_id user, c_email = u_email user, iat = now, exp = now + 24 * 60 * 60\<rparr>))
               = Some (signed sch secret
                 \<lparr>c_id = u_id user, c_email = u_email user, iat = now, exp = now + 24 * 60 * 60\<rparr>)"
  shows "\<exists>t. fst (login (token_issue sch) compare secret now b w)
               = respond 200
                   (Obj [(''token'', Str t),
                         (''user'', public_profile (u_id user) (u_username user) (u_email user))])
           \<and> map_option t_payload (decode sch t)
               = Some \<lparr>c_id = u_id user, c_email = u_email user,
                       iat = now, exp = now + 24 * 60 * 60\<rparr>
           \<and> (\<forall>later. later \<le> now + 24 * 60 * 60 \<longrightarrow>
                token_verify sch t secret later
                  = Inr \<lparr>c_id = u_id user, c_email = u_email user,
                         iat = now, exp = now + 24 * 60 * 60\<rparr>)"
  using login_matched [OF up store found, of "token_issue sch" compare secret now] match wire
  by (auto simp: token_issue_def token_verify_def signed_def expiresIn_def)

theorem C4_login_token_claims_witness:
  "\<exists>t. fst (login (token_issue toy_scheme) toy_compare ''s3cret'' 1000
              \<lparr>l_email = ''john@example.com'', l_password = ''password123''\<rparr> sample_store)
         = respond 200
             (Obj [(''token'', Str t),
                   (''user'', public_profile 1 ''johndoe'' ''john@example.com'')])
      \<and> map_option t_payload (decode toy_scheme t)
         = Some \<lparr>c_id = 1, c_email = ''john@example.com'', iat = 1000, exp = 87400\<rparr>
      \<and> token_verify toy_scheme t ''s3cret'' 87400
         = Inr \<lparr>c_id = 1, c_email = ''john@example.com'', iat = 1000, exp = 87400\<rparr>"
proof -
  let ?john = "\<lparr>l_email = ''john@example.com'', l_password = ''password123''\<rparr>"
  have found: "find (\<lambda>r. u_email r = l_email ?john) (rows sample_users) = Some john_row"
    by (simp add: sample_users_def john_row_def)
  have match: "toy_compare (l_password ?john) (u_password john_row) = Inr True"
    by (simp add: toy_compare_def john_row_def)
  have wire: "decode toy_scheme (encode toy_scheme (signed toy_scheme ''s3cret''
                 \<lparr>c_id = u_id john_row, c_email = u_email john_row, iat = 1000,
                  exp = 1000 + 24 * 60 * 60\<rparr>))
               = Some (signed toy_scheme ''s3cret''
                 \<lparr>c_id = u_id john_row, c_email = u_email john_row, iat = 1000,
                  exp = 1000 + 24 * 60 * 60\<rparr>)"
    by (simp add: toy_scheme_def signed_def john_payload_def john_row_def)
  from C4_login_token_claims
         [where w = sample_store and d = sample_db and ut = sample_users and b = ?john
            and user = john_row and compare = toy_compare and sch = toy_scheme
            and secret = "''s3cret''" and now = 1000,
          OF sample_facts(1,2,3) found match wire]
  show ?thesis
    by (auto simp: john_row_def)
qed

text \<open>
  C3. A token issued at \<open>t0\<close> with lifetime \<open>ttl\<close> no longer verifies once \<open>t0 + ttl\<close> has
  passed; a token that carries the issued signature over altered claims does not verify
  at any time, given that the MAC of the altered payload differs from the issued
  signature. In both cases the middleware attaches no identity and answers 401
  "Invalid token", which is then the answer of every protected route.
\<close>

theorem C3_expired_or_tampered_token_rejected:
  assumes issued: "issued = signed sch secret
                     \<lparr>c_id = c_id c, c_email = c_email c, iat = t0, exp = t0 + ttl\<rparr>"
  shows "(token_issue sch c secret ttl t0 = Inr s \<and> decode sch s = Some issued \<and>
          t0 + ttl < now \<and> extract_token authorization = Some s \<and> s \<noteq> [] \<longrightarrow>
            token_verify sch s secret now = Inl Expired \<and>
            authMiddleware (token_verify sch) secret now authorization
              = Responded (respond 401 (error_body ''Invalid token'')) \<and>
            protected_routes_answer (token_verify sch) secret now authorization pid b w
              (respond 401 (error_body ''Invalid token'')))
       \<and> (decode sch s' = Some (issued\<lparr>t_payload := p'\<rparr>) \<and>
          (c_id p' \<noteq> c_id c \<or> c_email p' \<noteq> c_email c) \<and>
          mac sch secret p' \<noteq> t_signature issued \<and>
          extract_token authorization' = Some s' \<and> s' \<noteq> [] \<longrightarrow>
            token_verify sch s' secret now' = Inl SignatureMismatch \<and>
            authMiddleware (token_verify sch) secret now' authorization'
              = Responded (respond 401 (error_body ''Invalid token'')) \<and>
            protected_routes_answer (token_verify sch) secret now' authorization' pid b w
              (respond 401 (error_body ''Invalid token'')))"
proof -
  have verdicts:
    "(token_issue sch c secret ttl t0 = Inr s \<and> decode sch s = Some issued \<and>
          t0 + ttl < now \<and> extract_token authorization = Some s \<and> s \<noteq> [] \<longrightarrow>
            token_verify sch s secret now = Inl Expired \<and>
            authMiddleware (token_verify sch) secret now authorization
              = Responded (respond 401 (error_body ''Invalid token'')))
       \<and> (decode sch s' = Some (issued\<lparr>t_payload := p'\<rparr>) \<and>
          (c_id p' \<noteq> c_id c \<or> c_email p' \<noteq> c_email c) \<and>
          mac sch secret p' \<noteq> t_signature issued \<and>
          extract_token authorization' = Some s' \<and> s' \<noteq> [] \<longrightarrow>
            token_verify sch s' secret now' = Inl SignatureMismatch \<and>
            authMiddleware (token_verify sch) secret now' authorization'
              = Responded (respond 401 (error_body ''Invalid token'')))"
    using issued
    by (auto simp: token_verify_def signed_def authMiddleware_def)
  show ?thesis
    using verdicts
      protected_routes_rejected [of "token_verify sch" secret now authorization
        "respond 401 (error_body ''Invalid token'')" pid b w]
      protected_routes_rejected [of "token_verify sch" secret now' authorization'
        "respond 401 (error_body ''Invalid token'')" pid b w]
    by blast
qed

theorem C3_expired_or_tampered_token_rejected_witness:
  "token_issue toy_scheme \<lparr>c_id = 1, c_email = ''john@example.com''\<rparr> ''s3cret'' 86400 1000
     = Inr ''john.token''
   \<and> token_verify toy_scheme ''john.token'' ''s3cret'' 87400 = Inr john_payload
   \<and> token_verify toy_scheme ''john.token'' ''s3cret'' 87401 = Inl Expired
   \<and> authMiddleware (token_verify toy_scheme) ''s3cret'' 87401 (Some ''Bearer john.token'')
     = Responded (respond 401 (error_body ''Invalid token''))
   \<and> token_verify toy_scheme ''forged.token'' ''s3cret'' 2000 = Inl SignatureMismatch
   \<and> authMiddleware (token_verify toy_scheme) ''s3cret'' 2000 (Some ''Bearer forged.token'')
     = Responded (respond 401 (error_body ''Invalid token''))"
proof -
  let ?c = "\<lparr>c_id = 1, c_email = ''john@example.com''\<rparr>"
  let ?issued = "signed toy_scheme ''s3cret''
                   \<lparr>c_id = c_id ?c, c_email = c_email ?c, iat = 1000, exp = 1000 + 86400\<rparr>"
  let ?p' = "john_payload\<lparr>c_id := 2\<rparr>"
  have issue: "token_issue toy_scheme ?c ''s3cret'' 86400 1000 = Inr ''john.token''"
    by (simp add: token_issue_def toy_scheme_def signed_def john_payload_def)
  have carried: "decode toy_scheme ''john.token'' = Some ?issued"
    by (simp add: toy_scheme_def signed_def john_payload_def)
  have forged: "decode toy_scheme ''forged.token'' = Some (?issued\<lparr>t_payload := ?p'\<rparr>)"
    by (simp add: toy_scheme_def signed_def john_payload_def)
  have altered: "c_id ?p' \<noteq> c_id ?c \<or> c_email ?p' \<noteq> c_email ?c"
    by simp
  have separated: "mac toy_scheme ''s3cret'' ?p' \<noteq> t_signature ?issued"
    by (simp add: toy_scheme_def signed_def john_payload_def)
  have late: "(1000::nat) + 86400 < 87401"
    by simp
  have h1: "extract_token (Some ''Bearer john.token'') = Some ''john.token''"
    by (simp add: extract_token_def index_def)
  have h2: "extract_token (Some ''Bearer forged.token'') = Some ''forged.token''"
    by (simp add: extract_token_def index_def)
  have fine: "token_verify toy_scheme ''john.token'' ''s3cret'' 87400 = Inr john_payload"
    by (simp add: token_verify_def toy_scheme_def john_payload_def)
  from C3_expired_or_tampered_token_rejected
         [OF refl, where sch = toy_scheme and c = ?c and secret = "''s3cret''" and ttl = 86400
            and ?t0.0 = 1000 and s = "''john.token''" and now = 87401
            and authorization = "Some ''Bearer john.token''" and s' = "''forged.token''"
            and p' = ?p' and authorization' = "Some ''Bearer forged.token''" and now' = 2000
            and pid = 1 and b = "\<lparr>b_title = ''x'', b_content = ''y''\<rparr>" and w = one_post]
       issue carried forged altered separated late h1 h2 fine
  show ?thesis
    by simp
qed

section \<open>The routes on sample requests\<close>

text \<open>
  The owner's update and delete, a created post and the profile of a stored account.
\<close>

lemma johns_auth:
  "authMiddleware johns_token ''k'' 10 (Some ''Bearer john'')
     = Next \<lparr>c_id = 1, c_email = ''john@example.com'', iat = 0, exp = 86400\<rparr>"
  by (simp add: authMiddleware_def extract_token_def index_def johns_token_def)

lemma owner_updates_and_deletes:
  "fst (put_post johns_token ''k'' 10 (Some ''Bearer john'') 1
          \<lparr>b_title = ''x'', b_content = ''y''\<rparr> one_post)
     = respond 200 (message_body ''Post updated'')"
  "map p_title (post_rows (snd (put_post johns_token ''k'' 10 (Some ''Bearer john'') 1
          \<lparr>b_title = ''x'', b_content = ''y''\<rparr> one_post))) = [''x'']"
  "fst (delete_post_route johns_token ''k'' 10 (Some ''Bearer john'') 1 one_post)
     = respond 200 (message_body ''Post deleted'')"
  "post_rows (snd (delete_post_route johns_token ''k'' 10 (Some ''Bearer john'') 1 one_post)) = []"
  by (simp_all add: put_post_def delete_post_route_def johns_auth put_post_handler_def
      delete_post_handler_def pool_query_def network_def in_database_def update_post_def
      delete_post_def one_post_def post_rows_def)

lemma owner_creates_post:
  "fst (create_post johns_token ''k'' 10 (Some ''Bearer john'')
          \<lparr>b_title = ''t'', b_content = ''c''\<rparr> sample_store)
     = respond 201 (Obj [(''message'', Str ''Post created''), (''postId'', Num 6)])"
  by (simp add: create_post_def johns_auth create_post_handler_def pool_query_def network_def
      in_database_def insert_post_def sample_store_def sample_db_def sample_users_def
      sample_posts_def john_row_def jane_row_def dave_row_def)

lemma profile_of_stored_account:
  "fst (profile johns_token ''k'' 10 (Some ''Bearer john'') sample_store)
     = respond 200 (public_profile 1 ''johndoe'' ''john@example.com'')"
  by (simp add: profile_def johns_auth profile_handler_def pool_query_def network_def
      in_database_def select_profile_def index_def sample_store_def sample_db_def
      sample_users_def john_row_def jane_row_def dave_row_def)

end
